theory Spec2Isabelle
  imports Main
begin

section \<open>Blueprint composition: data model\<close>

text \<open>
  The Go structs of the blueprint are records. A Go string is a byte sequence, so it is a
  \<open>string\<close> here and \<open>length\<close> is Go's \<open>len\<close>. The string enum types (ServiceType, Runtime,
  Plan, DatabaseProperty, ServiceProperty) are strings, as in the source.

  The operations write through pointers and into slices that the input and the result
  share, so the memory those writes reach is an explicit store:
  \<^item> the backing arrays of the nested slices \<open>[]EnvVar\<close> and \<open>[]ReadReplica\<close>;
  \<^item> the cells behind \<open>*FromDatabase\<close>, \<open>*FromService\<close>, \<open>*string\<close> (FromGroup),
    \<open>*Previews\<close> and \<open>*int\<close>.
  An address is an index into the list of cells of its type; allocation appends a cell.
  The top-level slices of a Blueprint are lists: CopyBlueprint and MergeBlueprints
  allocate new backing arrays for them, and every write at that level goes into such a new
  array. The pointer fields Key, Value, GenerateValue, Sync, Runtime and Plan are never
  written through and are modelled by the (optional) value they point to. The remaining
  fields of Service and Database are neither read nor written by the operations and are
  left out.
\<close>

type_synonym addr = nat

record FromDatabase =
  Name :: string
  Property :: string

record FromService =
  Name :: string
  Type :: string
  Property :: "string option"
  EnvVarKey :: "string option"

record EnvVar =
  Key :: "string option"
  Value :: "string option"
  GenerateValue :: "bool option"
  Sync :: "bool option"
  FromDatabase :: "addr option"
  FromService :: "addr option"
  FromGroup :: "addr option"

record ReadReplica =
  Name :: string

text \<open>A slice header: backing array, first element, length. The nil slice is \<open>None\<close>.\<close>

record slice =
  array :: addr
  offset :: nat
  len :: nat

record Service =
  Name :: string
  Type :: string
  Runtime :: "string option"
  Plan :: "string option"
  EnvVars :: "slice option"

record Database =
  Name :: string
  Plan :: "string option"
  ReadReplicas :: "slice option"

record EnvVarGroup =
  Name :: string
  EnvVars :: "slice option"

record Previews =
  Generation :: string

record Blueprint =
  Services :: "Service list"
  Databases :: "Database list"
  EnvVarGroups :: "EnvVarGroup list"
  Previews :: "addr option"
  PreviewsExpireAfterDays :: "addr option"

record store =
  EnvVar_arrays :: "EnvVar list list"
  ReadReplica_arrays :: "ReadReplica list list"
  FromDatabase_cells :: "FromDatabase list"
  FromService_cells :: "FromService list"
  string_cells :: "string list"
  Previews_cells :: "Previews list"
  int_cells :: "int list"

text \<open>Reading a cell. A Go pointer is nil or valid; an address outside the store reads as
  \<open>None\<close>, and the operations skip it.\<close>

definition deref :: "'a list \<Rightarrow> addr \<Rightarrow> 'a option" where
  "deref cells a = (if a < length cells then Some (cells ! a) else None)"

text \<open>\<open>&Blueprint{}\<close>: nil slices, nil pointers.\<close>

definition empty_Blueprint :: Blueprint where
  "empty_Blueprint = \<lparr>Services = [], Databases = [], EnvVarGroups = [],
     Previews = None, PreviewsExpireAfterDays = None\<rparr>"

text \<open>A \<open>map[string]bool\<close> read at a missing key gives \<open>false\<close>.\<close>

definition lookup_bool :: "(string \<rightharpoonup> bool) \<Rightarrow> string \<Rightarrow> bool" where
  "lookup_bool m k = (case m k of None \<Rightarrow> False | Some b \<Rightarrow> b)"

section \<open>FindConflicts\<close>

definition mark :: "string \<Rightarrow> (string \<rightharpoonup> bool) \<Rightarrow> (string \<rightharpoonup> bool)" where
  "mark n m = m(n \<mapsto> True)"

definition report_conflict ::
    "(string \<rightharpoonup> bool) \<Rightarrow> string \<Rightarrow> string \<Rightarrow> string list \<Rightarrow> string list" where
  "report_conflict baseNames what n conflicts =
     (if lookup_bool baseNames n then conflicts @ [what @ n] else conflicts)"

definition FindConflicts :: "Blueprint option \<Rightarrow> Blueprint option \<Rightarrow> string list" where
  "FindConflicts base overlay =
     (case base of None \<Rightarrow> [] | Some b \<Rightarrow>
      (case overlay of None \<Rightarrow> [] | Some ov \<Rightarrow>
        (let conflicts = [];
            baseServiceNames = fold (\<lambda>service. mark (Service.Name service)) (Services b) Map.empty;
            conflicts = fold (\<lambda>service.
                report_conflict baseServiceNames ''service name conflict: '' (Service.Name service))
              (Services ov) conflicts;
            baseDBNames = fold (\<lambda>db. mark (Database.Name db)) (Databases b) Map.empty;
            conflicts = fold (\<lambda>db.
                report_conflict baseDBNames ''database name conflict: '' (Database.Name db))
              (Databases ov) conflicts;
            baseEnvGroupNames =
              fold (\<lambda>group. mark (EnvVarGroup.Name group)) (EnvVarGroups b) Map.empty;
            conflicts = fold (\<lambda>group.
                report_conflict baseEnvGroupNames ''environment group name conflict: ''
                  (EnvVarGroup.Name group))
              (EnvVarGroups ov) conflicts
        in conflicts)))"

section \<open>ValidateBlueprint\<close>

definition ServiceTypeKeyValue :: string where
  "ServiceTypeKeyValue = ''keyvalue''"

text \<open>The body of a duplicate-name loop: the error list and the map of names seen.\<close>

definition check_duplicate ::
    "string \<Rightarrow> string \<Rightarrow> string list \<times> (string \<rightharpoonup> bool) \<Rightarrow> string list \<times> (string \<rightharpoonup> bool)" where
  "check_duplicate what n = (\<lambda>(errors, names).
     ((if lookup_bool names n then errors @ [what @ n] else errors), names(n \<mapsto> True)))"

definition check_service :: "Service \<Rightarrow> string list \<Rightarrow> string list" where
  "check_service service errors =
     (let errors = (if Service.Name service = [] then errors @ [''service missing name'']
                    else errors);
          errors = (if Service.Type service = []
                    then errors @ [''service '' @ Service.Name service @ '' missing type'']
                    else errors);
          errors = (if Service.Runtime service = None \<and> Service.Type service \<noteq> ServiceTypeKeyValue
                    then errors @ [''service '' @ Service.Name service @ '' missing runtime'']
                    else errors)
      in errors)"

definition ValidateBlueprint :: "Blueprint option \<Rightarrow> string list" where
  "ValidateBlueprint bp =
     (case bp of None \<Rightarrow> [''blueprint is nil''] | Some b \<Rightarrow>
       (let errors = [];
            errors = fst (fold (\<lambda>service.
                check_duplicate ''duplicate service name: '' (Service.Name service))
              (Services b) (errors, Map.empty));
            errors = fst (fold (\<lambda>db.
                check_duplicate ''duplicate database name: '' (Database.Name db))
              (Databases b) (errors, Map.empty));
            errors = fst (fold (\<lambda>group.
                check_duplicate ''duplicate environment group name: '' (EnvVarGroup.Name group))
              (EnvVarGroups b) (errors, Map.empty));
            errors = fold check_service (Services b) errors;
            errors = fold (\<lambda>db errors.
                if Database.Name db = [] then errors @ [''database missing name''] else errors)
              (Databases b) errors;
            errors = fold (\<lambda>group errors.
                if EnvVarGroup.Name group = [] then errors @ [''environment group missing name'']
                else errors)
              (EnvVarGroups b) errors
        in errors))"

section \<open>CopyBlueprint\<close>

text \<open>
  \<open>make\<close> and \<open>copy\<close> give the copy new top-level arrays holding the same struct values, so
  the nested slices and the pointers inside the elements are the input's. The two
  top-level pointers get new cells.
\<close>

definition CopyBlueprint :: "store \<Rightarrow> Blueprint option \<Rightarrow> store \<times> Blueprint" where
  "CopyBlueprint st bp =
     (case bp of None \<Rightarrow> (st, empty_Blueprint) | Some b \<Rightarrow>
       (let copied = empty_Blueprint;
            copied = copied\<lparr>Services := Services b\<rparr>;
            copied = copied\<lparr>Databases := Databases b\<rparr>;
            copied = copied\<lparr>EnvVarGroups := EnvVarGroups b\<rparr>;
            (st, copied) =
              (case Option.bind (Blueprint.Previews b) (deref (Previews_cells st)) of
                 None \<Rightarrow> (st, copied)
               | Some previews \<Rightarrow>
                   (st\<lparr>Previews_cells := Previews_cells st @ [previews]\<rparr>,
                    copied\<lparr>Blueprint.Previews := Some (length (Previews_cells st))\<rparr>));
            (st, copied) =
              (case Option.bind (PreviewsExpireAfterDays b) (deref (int_cells st)) of
                 None \<Rightarrow> (st, copied)
               | Some expireDays \<Rightarrow>
                   (st\<lparr>int_cells := int_cells st @ [expireDays]\<rparr>,
                    copied\<lparr>PreviewsExpireAfterDays := Some (length (int_cells st))\<rparr>))
        in (st, copied)))"

section \<open>MergeBlueprints\<close>

text \<open>Go's \<open>strings.Join\<close>.\<close>

definition strings_Join :: "string list \<Rightarrow> string \<Rightarrow> string" where
  "strings_Join elems sep =
     (case elems of [] \<Rightarrow> [] | e # es \<Rightarrow> e @ concat (map (\<lambda>x. sep @ x) es))"

text \<open>The result is the merged document or (\<open>Inl\<close>) the error's message.\<close>

definition MergeBlueprints ::
    "store \<Rightarrow> Blueprint option \<Rightarrow> Blueprint option \<Rightarrow> store \<times> (string + Blueprint)" where
  "MergeBlueprints st base overlay =
     (case base of
        None \<Rightarrow>
          (case overlay of
             None \<Rightarrow> (st, Inr empty_Blueprint)
           | Some ov \<Rightarrow> (let (st, copied) = CopyBlueprint st overlay in (st, Inr copied)))
      | Some b \<Rightarrow>
          (case overlay of
             None \<Rightarrow> (let (st, copied) = CopyBlueprint st base in (st, Inr copied))
           | Some ov \<Rightarrow>
              (let conflicts = FindConflicts base overlay in
               if length conflicts > 0
               then (st, Inl (''merge conflicts found: '' @ strings_Join conflicts '', ''
                       @ ''. Use PrefixBlueprint() to avoid name conflicts before merging''))
               else
                 (let merged = empty_Blueprint;
                      merged = merged\<lparr>Services := Services merged @ Services b\<rparr>;
                      merged = merged\<lparr>Services := Services merged @ Services ov\<rparr>;
                      merged = merged\<lparr>Databases := Databases merged @ Databases b\<rparr>;
                      merged = merged\<lparr>Databases := Databases merged @ Databases ov\<rparr>;
                      merged = merged\<lparr>EnvVarGroups := EnvVarGroups merged @ EnvVarGroups b\<rparr>;
                      merged = merged\<lparr>EnvVarGroups := EnvVarGroups merged @ EnvVarGroups ov\<rparr>;
                      merged = (if Blueprint.Previews ov \<noteq> None
                                then merged\<lparr>Blueprint.Previews := Blueprint.Previews ov\<rparr>
                                else merged\<lparr>Blueprint.Previews := Blueprint.Previews b\<rparr>);
                      merged = (if PreviewsExpireAfterDays ov \<noteq> None
                                then merged\<lparr>PreviewsExpireAfterDays := PreviewsExpireAfterDays ov\<rparr>
                                else merged\<lparr>PreviewsExpireAfterDays := PreviewsExpireAfterDays b\<rparr>)
                  in (st, Inr merged)))))"

text \<open>The helper methods GetServices, GetDatabases, GetEnvVarGroups: nil for a nil document.\<close>

definition GetServices :: "Blueprint option \<Rightarrow> Service list" where
  "GetServices bp = (case bp of None \<Rightarrow> [] | Some b \<Rightarrow> Services b)"

definition GetDatabases :: "Blueprint option \<Rightarrow> Database list" where
  "GetDatabases bp = (case bp of None \<Rightarrow> [] | Some b \<Rightarrow> Databases b)"

definition GetEnvVarGroups :: "Blueprint option \<Rightarrow> EnvVarGroup list" where
  "GetEnvVarGroups bp = (case bp of None \<Rightarrow> [] | Some b \<Rightarrow> EnvVarGroups b)"

section \<open>PrefixBlueprint\<close>

text \<open>Go's \<open>strings.HasPrefix\<close>, and \<open>strings.Replace(s, old, new, 1)\<close>: the first occurrence is
  replaced; an empty \<open>old\<close> matches at the beginning of the string.\<close>

definition strings_HasPrefix :: "string \<Rightarrow> string \<Rightarrow> bool" where
  "strings_HasPrefix s prefix \<longleftrightarrow> length s \<ge> length prefix \<and> take (length prefix) s = prefix"

fun replace_first :: "string \<Rightarrow> string \<Rightarrow> string \<Rightarrow> string" where
  "replace_first [] old new = []"
| "replace_first (c # s) old new =
     (if strings_HasPrefix (c # s) old then new @ drop (length old) (c # s)
      else c # replace_first s old new)"

definition strings_Replace1 :: "string \<Rightarrow> string \<Rightarrow> string \<Rightarrow> string" where
  "strings_Replace1 s old new =
     (if old = new then s else if old = [] then new @ s else replace_first s old new)"

text \<open>The slice expression \<open>s[:k]\<close> panics unless \<open>0 \<le> k \<le> len(s)\<close>; \<open>None\<close> is the panic.\<close>

definition slice_to :: "string \<Rightarrow> int \<Rightarrow> string option" where
  "slice_to s k = (if 0 \<le> k \<and> k \<le> int (length s) then Some (take (nat k) s) else None)"

text \<open>A loop whose body may panic.\<close>

fun fold_option :: "('a \<Rightarrow> 's \<Rightarrow> 's option) \<Rightarrow> 'a list \<Rightarrow> 's \<Rightarrow> 's option" where
  "fold_option f [] s = Some s"
| "fold_option f (x # xs) s = (case f x s of None \<Rightarrow> None | Some s' \<Rightarrow> fold_option f xs s')"

text \<open>Element \<open>i\<close> of a slice, read from its backing array.\<close>

definition slice_elem :: "'a list list \<Rightarrow> slice \<Rightarrow> nat \<Rightarrow> 'a option" where
  "slice_elem arrays s i = Option.bind (deref arrays (array s)) (\<lambda>xs. deref xs (offset s + i))"

definition slice_store :: "'a list list \<Rightarrow> slice \<Rightarrow> nat \<Rightarrow> 'a \<Rightarrow> 'a list list" where
  "slice_store arrays s i v = arrays[array s := (arrays ! array s)[offset s + i := v] ]"

text \<open>The old-name to new-name map of one kind: every key of the set of existing names is
  mapped to \<open>prefix + oldName\<close>.\<close>

definition name_map :: "string \<Rightarrow> (string \<rightharpoonup> bool) \<Rightarrow> (string \<rightharpoonup> string)" where
  "name_map prefix existing =
     (\<lambda>oldName. case existing oldName of None \<Rightarrow> None | Some _ \<Rightarrow> Some (prefix @ oldName))"

text \<open>The three renaming passes over the entries of the copy.\<close>

definition rename_services :: "(string \<rightharpoonup> string) \<Rightarrow> Blueprint \<Rightarrow> Blueprint" where
  "rename_services serviceNameMap prefixed =
     prefixed\<lparr>Services := map (\<lambda>service.
        case serviceNameMap (Service.Name service) of
          Some newName \<Rightarrow> service\<lparr>Service.Name := newName\<rparr>
        | None \<Rightarrow> service) (Services prefixed)\<rparr>"

definition rename_databases :: "(string \<rightharpoonup> string) \<Rightarrow> Blueprint \<Rightarrow> Blueprint" where
  "rename_databases databaseNameMap prefixed =
     prefixed\<lparr>Databases := map (\<lambda>db.
        case databaseNameMap (Database.Name db) of
          Some newName \<Rightarrow> db\<lparr>Database.Name := newName\<rparr>
        | None \<Rightarrow> db) (Databases prefixed)\<rparr>"

definition rename_groups :: "(string \<rightharpoonup> string) \<Rightarrow> Blueprint \<Rightarrow> Blueprint" where
  "rename_groups envGroupNameMap prefixed =
     prefixed\<lparr>EnvVarGroups := map (\<lambda>group.
        case envGroupNameMap (EnvVarGroup.Name group) of
          Some newName \<Rightarrow> group\<lparr>EnvVarGroup.Name := newName\<rparr>
        | None \<Rightarrow> group) (EnvVarGroups prefixed)\<rparr>"

text \<open>The body of the loop of the closure updateEnvVarReferences, for one EnvVar: each
  reference is read through its pointer and, if its name is a key of the kind's map,
  written through the same pointer.\<close>

definition updateEnvVar ::
    "(string \<rightharpoonup> string) \<Rightarrow> (string \<rightharpoonup> string) \<Rightarrow> (string \<rightharpoonup> string) \<Rightarrow> EnvVar \<Rightarrow> store \<Rightarrow> store" where
  "updateEnvVar databaseNameMap serviceNameMap envGroupNameMap envVar st =
     (let st = (case EnvVar.FromDatabase envVar of None \<Rightarrow> st | Some a \<Rightarrow>
                 (case deref (FromDatabase_cells st) a of None \<Rightarrow> st | Some fromDatabase \<Rightarrow>
                   (case databaseNameMap (FromDatabase.Name fromDatabase) of None \<Rightarrow> st
                    | Some newName \<Rightarrow> st\<lparr>FromDatabase_cells :=
                        (FromDatabase_cells st)[a := fromDatabase\<lparr>FromDatabase.Name := newName\<rparr>]\<rparr>)));
          st = (case EnvVar.FromService envVar of None \<Rightarrow> st | Some a \<Rightarrow>
                 (case deref (FromService_cells st) a of None \<Rightarrow> st | Some fromService \<Rightarrow>
                   (case serviceNameMap (FromService.Name fromService) of None \<Rightarrow> st
                    | Some newName \<Rightarrow> st\<lparr>FromService_cells :=
                        (FromService_cells st)[a := fromService\<lparr>FromService.Name := newName\<rparr>]\<rparr>)));
          st = (case EnvVar.FromGroup envVar of None \<Rightarrow> st | Some a \<Rightarrow>
                 (case deref (string_cells st) a of None \<Rightarrow> st | Some fromGroup \<Rightarrow>
                   (case envGroupNameMap fromGroup of None \<Rightarrow> st
                    | Some newName \<Rightarrow> st\<lparr>string_cells := (string_cells st)[a := newName]\<rparr>)))
      in st)"

definition updateEnvVarReferences ::
    "(string \<rightharpoonup> string) \<Rightarrow> (string \<rightharpoonup> string) \<Rightarrow> (string \<rightharpoonup> string) \<Rightarrow> slice option \<Rightarrow> store \<Rightarrow> store" where
  "updateEnvVarReferences databaseNameMap serviceNameMap envGroupNameMap envVars st =
     (case envVars of None \<Rightarrow> st | Some s \<Rightarrow>
        fold (\<lambda>i st. case slice_elem (EnvVar_arrays st) s i of None \<Rightarrow> st
                      | Some envVar \<Rightarrow>
                          updateEnvVar databaseNameMap serviceNameMap envGroupNameMap envVar st)
          [0..<len s] st)"

text \<open>The body of the read-replica loop for replica \<open>j\<close> of a database of the copy, whose
  name \<open>dbName\<close> is the new one by now.\<close>

definition updateReplica :: "string \<Rightarrow> string \<Rightarrow> slice \<Rightarrow> nat \<Rightarrow> store \<Rightarrow> store option" where
  "updateReplica prefix dbName s j st =
     (case slice_elem (ReadReplica_arrays st) s j of None \<Rightarrow> Some st | Some replica \<Rightarrow>
       (case slice_to dbName (int (length dbName) - int (length prefix)) of None \<Rightarrow> None
        | Some oldDBName \<Rightarrow>
           if strings_HasPrefix (ReadReplica.Name replica) oldDBName
           then (if strings_HasPrefix (ReadReplica.Name replica) oldDBName
                 then Some (st\<lparr>ReadReplica_arrays :=
                        slice_store (ReadReplica_arrays st) s j
                          (replica\<lparr>ReadReplica.Name :=
                             strings_Replace1 (ReadReplica.Name replica) oldDBName dbName\<rparr>)\<rparr>)
                 else Some st)
           else Some st))"

definition updateReadReplicas :: "string \<Rightarrow> Database \<Rightarrow> store \<Rightarrow> store option" where
  "updateReadReplicas prefix db st =
     (case ReadReplicas db of None \<Rightarrow> Some st | Some s \<Rightarrow>
        fold_option (updateReplica prefix (Database.Name db) s) [0..<len s] st)"

text \<open>PrefixBlueprint returns the new store and the prefixed document; \<open>None\<close> is a panic.\<close>

definition PrefixBlueprint ::
    "store \<Rightarrow> Blueprint option \<Rightarrow> string \<Rightarrow> (store \<times> Blueprint) option" where
  "PrefixBlueprint st bp prefix =
     (if bp = None \<or> prefix = [] then Some (CopyBlueprint st bp)
      else
       (let (st, prefixed) = CopyBlueprint st bp;
            existingServiceNames =
              fold (\<lambda>service. mark (Service.Name service)) (Services prefixed) Map.empty;
            existingDatabaseNames =
              fold (\<lambda>db. mark (Database.Name db)) (Databases prefixed) Map.empty;
            existingEnvGroupNames =
              fold (\<lambda>group. mark (EnvVarGroup.Name group)) (EnvVarGroups prefixed) Map.empty;
            serviceNameMap = name_map prefix existingServiceNames;
            databaseNameMap = name_map prefix existingDatabaseNames;
            envGroupNameMap = name_map prefix existingEnvGroupNames;
            prefixed = rename_services serviceNameMap prefixed;
            prefixed = rename_databases databaseNameMap prefixed;
            prefixed = rename_groups envGroupNameMap prefixed;
            st = fold (\<lambda>service.
                updateEnvVarReferences databaseNameMap serviceNameMap envGroupNameMap
                  (Service.EnvVars service))
              (Services prefixed) st;
            st = fold (\<lambda>group.
                updateEnvVarReferences databaseNameMap serviceNameMap envGroupNameMap
                  (EnvVarGroup.EnvVars group))
              (EnvVarGroups prefixed) st
        in case fold_option (updateReadReplicas prefix) (Databases prefixed) st of
             None \<Rightarrow> None
           | Some st \<Rightarrow> Some (st, prefixed)))"

section \<open>Snapshots\<close>

text \<open>
  A snapshot is the value of a document in a store: every pointer replaced by what it
  points to (nil by \<open>None\<close>), every slice by the list of its elements. Two snapshots are
  equal exactly when the documents are field-by-field equal.
\<close>

record EnvVar_snapshot =
  Key :: "string option"
  Value :: "string option"
  GenerateValue :: "bool option"
  Sync :: "bool option"
  FromDatabase :: "FromDatabase option"
  FromService :: "FromService option"
  FromGroup :: "string option"

record Service_snapshot =
  Name :: string
  Type :: string
  Runtime :: "string option"
  Plan :: "string option"
  EnvVars :: "EnvVar_snapshot list"

record Database_snapshot =
  Name :: string
  Plan :: "string option"
  ReadReplicas :: "ReadReplica list"

record EnvVarGroup_snapshot =
  Name :: string
  EnvVars :: "EnvVar_snapshot list"

record Blueprint_snapshot =
  Services :: "Service_snapshot list"
  Databases :: "Database_snapshot list"
  EnvVarGroups :: "EnvVarGroup_snapshot list"
  Previews :: "Previews option"
  PreviewsExpireAfterDays :: "int option"

definition slice_elems :: "'a list list \<Rightarrow> slice option \<Rightarrow> 'a list" where
  "slice_elems arrays sl =
     (case sl of None \<Rightarrow> [] | Some s \<Rightarrow>
       (case deref arrays (array s) of None \<Rightarrow> []
        | Some xs \<Rightarrow> take (len s) (drop (offset s) xs)))"

definition snapshot_EnvVar :: "store \<Rightarrow> EnvVar \<Rightarrow> EnvVar_snapshot" where
  "snapshot_EnvVar st e =
     \<lparr>EnvVar_snapshot.Key = EnvVar.Key e, Value = EnvVar.Value e,
      GenerateValue = EnvVar.GenerateValue e, Sync = EnvVar.Sync e,
      FromDatabase = Option.bind (EnvVar.FromDatabase e) (deref (FromDatabase_cells st)),
      FromService = Option.bind (EnvVar.FromService e) (deref (FromService_cells st)),
      FromGroup = Option.bind (EnvVar.FromGroup e) (deref (string_cells st))\<rparr>"

definition snapshot_EnvVars :: "store \<Rightarrow> slice option \<Rightarrow> EnvVar_snapshot list" where
  "snapshot_EnvVars st sl = map (snapshot_EnvVar st) (slice_elems (EnvVar_arrays st) sl)"

definition snapshot_Service :: "store \<Rightarrow> Service \<Rightarrow> Service_snapshot" where
  "snapshot_Service st s =
     \<lparr>Service_snapshot.Name = Service.Name s, Type = Service.Type s,
      Runtime = Service.Runtime s, Plan = Service.Plan s,
      EnvVars = snapshot_EnvVars st (Service.EnvVars s)\<rparr>"

definition snapshot_Database :: "store \<Rightarrow> Database \<Rightarrow> Database_snapshot" where
  "snapshot_Database st d =
     \<lparr>Database_snapshot.Name = Database.Name d, Plan = Database.Plan d,
      ReadReplicas = slice_elems (ReadReplica_arrays st) (Database.ReadReplicas d)\<rparr>"

definition snapshot_EnvVarGroup :: "store \<Rightarrow> EnvVarGroup \<Rightarrow> EnvVarGroup_snapshot" where
  "snapshot_EnvVarGroup st g =
     \<lparr>EnvVarGroup_snapshot.Name = EnvVarGroup.Name g,
      EnvVars = snapshot_EnvVars st (EnvVarGroup.EnvVars g)\<rparr>"

definition snapshot :: "store \<Rightarrow> Blueprint \<Rightarrow> Blueprint_snapshot" where
  "snapshot st bp =
     \<lparr>Blueprint_snapshot.Services = map (snapshot_Service st) (Blueprint.Services bp),
      Databases = map (snapshot_Database st) (Blueprint.Databases bp),
      EnvVarGroups = map (snapshot_EnvVarGroup st) (Blueprint.EnvVarGroups bp),
      Previews = Option.bind (Blueprint.Previews bp) (deref (Previews_cells st)),
      PreviewsExpireAfterDays =
        Option.bind (Blueprint.PreviewsExpireAfterDays bp) (deref (int_cells st))\<rparr>"

section \<open>Reading the specification's terms\<close>

text \<open>The names of one kind that a document defines, in entry order (GetAllResourceNames).\<close>

definition service_names :: "Blueprint \<Rightarrow> string list" where
  "service_names bp = map Service.Name (Blueprint.Services bp)"

definition database_names :: "Blueprint \<Rightarrow> string list" where
  "database_names bp = map Database.Name (Blueprint.Databases bp)"

definition group_names :: "Blueprint \<Rightarrow> string list" where
  "group_names bp = map EnvVarGroup.Name (Blueprint.EnvVarGroups bp)"

text \<open>The collisions of one kind: the overlay's names, in the overlay's order, that the
  base defines too.\<close>

definition collisions :: "string list \<Rightarrow> string list \<Rightarrow> string list" where
  "collisions baseNames overlayNames = filter (\<lambda>n. n \<in> set baseNames) overlayNames"

text \<open>The names that a duplicate-name loop reports, given the set of names seen so far.\<close>

fun duplicate_names :: "string set \<Rightarrow> string list \<Rightarrow> string list" where
  "duplicate_names seen [] = []"
| "duplicate_names seen (n # ns) =
     (if n \<in> seen then [n] else []) @ duplicate_names (insert n seen) ns"

text \<open>A document with every defined name replaced by \<open>p + name\<close>.\<close>

definition prefixed_names :: "string \<Rightarrow> Blueprint \<Rightarrow> Blueprint" where
  "prefixed_names p c =
     c\<lparr>Blueprint.Services :=
         map (\<lambda>s. s\<lparr>Service.Name := p @ Service.Name s\<rparr>) (Blueprint.Services c),
       Blueprint.Databases :=
         map (\<lambda>s. s\<lparr>Database.Name := p @ Database.Name s\<rparr>) (Blueprint.Databases c),
       Blueprint.EnvVarGroups :=
         map (\<lambda>s. s\<lparr>EnvVarGroup.Name := p @ EnvVarGroup.Name s\<rparr>) (Blueprint.EnvVarGroups c)\<rparr>"

text \<open>The input document \<open>d\<close> as it reads in the store that \<open>PrefixBlueprint(d, p)\<close> leaves,
  and the result as it reads there.\<close>

definition original_after_prefix :: "store \<Rightarrow> Blueprint \<Rightarrow> string \<Rightarrow> Blueprint_snapshot option" where
  "original_after_prefix st d p =
     map_option (\<lambda>(st', r). snapshot st' d) (PrefixBlueprint st (Some d) p)"

definition prefixed_snapshot :: "store \<Rightarrow> Blueprint \<Rightarrow> string \<Rightarrow> Blueprint_snapshot option" where
  "prefixed_snapshot st d p =
     map_option (\<lambda>(st', r). snapshot st' r) (PrefixBlueprint st (Some d) p)"

text \<open>A caller's assignment \<open>bp.Previews.Generation = g\<close> (for a non-nil \<open>bp.Previews\<close>).\<close>

definition assign_Generation :: "Blueprint \<Rightarrow> string \<Rightarrow> store \<Rightarrow> store" where
  "assign_Generation bp g st =
     (case Blueprint.Previews bp of None \<Rightarrow> st
      | Some a \<Rightarrow> st\<lparr>Previews_cells := (Previews_cells st)[a := \<lparr>Generation = g\<rparr>]\<rparr>)"

text \<open>What the specification's sentences read off a snapshot: for every service the database
  names its EnvVars refer to, and for every database the names of its read replicas.\<close>

definition service_database_refs :: "Blueprint_snapshot \<Rightarrow> string option list list" where
  "service_database_refs s =
     map (\<lambda>service. map (\<lambda>e. map_option FromDatabase.Name (EnvVar_snapshot.FromDatabase e))
            (Service_snapshot.EnvVars service))
       (Blueprint_snapshot.Services s)"

definition replica_names :: "Blueprint_snapshot \<Rightarrow> string list list" where
  "replica_names s =
     map (\<lambda>db. map ReadReplica.Name (Database_snapshot.ReadReplicas db))
       (Blueprint_snapshot.Databases s)"

text \<open>The two top-level pointers of a document point into the store (or are nil).\<close>

definition allocated :: "store \<Rightarrow> Blueprint \<Rightarrow> bool" where
  "allocated st d \<longleftrightarrow>
     (case Blueprint.Previews d of None \<Rightarrow> True | Some a \<Rightarrow> a < length (Previews_cells st))
   \<and> (case Blueprint.PreviewsExpireAfterDays d of None \<Rightarrow> True
      | Some a \<Rightarrow> a < length (int_cells st))"

section \<open>What PrefixBlueprint does to the references\<close>

text \<open>The three maps from old names to new names that PrefixBlueprint builds for a
  document.\<close>

definition serviceNameMap :: "string \<Rightarrow> Blueprint \<Rightarrow> (string \<rightharpoonup> string)" where
  "serviceNameMap prefix d =
     name_map prefix (fold (\<lambda>service. mark (Service.Name service)) (Blueprint.Services d) Map.empty)"

definition databaseNameMap :: "string \<Rightarrow> Blueprint \<Rightarrow> (string \<rightharpoonup> string)" where
  "databaseNameMap prefix d =
     name_map prefix (fold (\<lambda>db. mark (Database.Name db)) (Blueprint.Databases d) Map.empty)"

definition envGroupNameMap :: "string \<Rightarrow> Blueprint \<Rightarrow> (string \<rightharpoonup> string)" where
  "envGroupNameMap prefix d =
     name_map prefix
       (fold (\<lambda>group. mark (EnvVarGroup.Name group)) (Blueprint.EnvVarGroups d) Map.empty)"

text \<open>One rewriting of a reference cell: the name is replaced if it is a key of the map.\<close>

definition rename_FromDatabase :: "(string \<rightharpoonup> string) \<Rightarrow> FromDatabase \<Rightarrow> FromDatabase" where
  "rename_FromDatabase m fd =
     (case m (FromDatabase.Name fd) of None \<Rightarrow> fd | Some newName \<Rightarrow> fd\<lparr>FromDatabase.Name := newName\<rparr>)"

definition rename_FromService :: "(string \<rightharpoonup> string) \<Rightarrow> FromService \<Rightarrow> FromService" where
  "rename_FromService m fs =
     (case m (FromService.Name fs) of None \<Rightarrow> fs | Some newName \<Rightarrow> fs\<lparr>FromService.Name := newName\<rparr>)"

definition rename_FromGroup :: "(string \<rightharpoonup> string) \<Rightarrow> string \<Rightarrow> string" where
  "rename_FromGroup m g = (case m g of None \<Rightarrow> g | Some newName \<Rightarrow> newName)"

text \<open>The EnvVars that the reference updates visit, in order: those of the services, then
  those of the env-groups.\<close>

definition visited_EnvVars :: "store \<Rightarrow> Blueprint \<Rightarrow> EnvVar list" where
  "visited_EnvVars st d =
     concat (map (\<lambda>s. slice_elems (EnvVar_arrays st) (Service.EnvVars s)) (Blueprint.Services d))
   @ concat (map (\<lambda>g. slice_elems (EnvVar_arrays st) (EnvVarGroup.EnvVars g)) (Blueprint.EnvVarGroups d))"

text \<open>Two stores that agree except on the read-replica arrays.\<close>

definition same_references :: "store \<Rightarrow> store \<Rightarrow> bool" where
  "same_references st st' \<longleftrightarrow>
     EnvVar_arrays st' = EnvVar_arrays st \<and> FromDatabase_cells st' = FromDatabase_cells st
   \<and> FromService_cells st' = FromService_cells st \<and> string_cells st' = string_cells st
   \<and> Previews_cells st' = Previews_cells st \<and> int_cells st' = int_cells st"

text \<open>No reference cell is held by two of the EnvVars of the document.\<close>

definition unshared :: "store \<Rightarrow> Blueprint \<Rightarrow> bool" where
  "unshared st d \<longleftrightarrow>
     distinct (List.map_filter EnvVar.FromDatabase (visited_EnvVars st d))
   \<and> distinct (List.map_filter EnvVar.FromService (visited_EnvVars st d))
   \<and> distinct (List.map_filter EnvVar.FromGroup (visited_EnvVars st d))"

text \<open>An EnvVar with every reference to a name that the document defines prefixed, and every
  other reference as it is.\<close>

definition prefix_references :: "string \<Rightarrow> Blueprint \<Rightarrow> EnvVar_snapshot \<Rightarrow> EnvVar_snapshot" where
  "prefix_references p d e =
     e\<lparr>EnvVar_snapshot.FromDatabase :=
         map_option (\<lambda>fd. if FromDatabase.Name fd \<in> set (database_names d)
                           then fd\<lparr>FromDatabase.Name := p @ FromDatabase.Name fd\<rparr> else fd)
           (EnvVar_snapshot.FromDatabase e),
       EnvVar_snapshot.FromService :=
         map_option (\<lambda>fs. if FromService.Name fs \<in> set (service_names d)
                           then fs\<lparr>FromService.Name := p @ FromService.Name fs\<rparr> else fs)
           (EnvVar_snapshot.FromService e),
       EnvVar_snapshot.FromGroup :=
         map_option (\<lambda>g. if g \<in> set (group_names d) then p @ g else g)
           (EnvVar_snapshot.FromGroup e)\<rparr>"

section \<open>Example documents\<close>

text \<open>\<open>EnvFromDatabase(key, dbName, "connectionString")\<close> with its FromDatabase cell at \<open>a\<close>.\<close>

definition database_ref :: "string \<Rightarrow> addr \<Rightarrow> EnvVar" where
  "database_ref key a =
     \<lparr>EnvVar.Key = Some key, Value = None, GenerateValue = None, Sync = None,
      FromDatabase = Some a, FromService = None, FromGroup = None\<rparr>"

text \<open>
  The example scenario: base defines the web service api, whose environment refers to
  the database main-db of the document and to external-db, which the document does not
  define, and the database main-db with the read replica main-db-replica; overlay defines
  the worker service. Both set the preview policy and the expiry.
\<close>

definition example_store :: store where
  "example_store =
     \<lparr>EnvVar_arrays = [ [database_ref ''DATABASE_URL'' 0, database_ref ''EXTERNAL_DB_URL'' 1] ],
      ReadReplica_arrays = [ [\<lparr>ReadReplica.Name = ''main-db-replica''\<rparr>] ],
      FromDatabase_cells =
        [\<lparr>FromDatabase.Name = ''main-db'', Property = ''connectionString''\<rparr>,
         \<lparr>FromDatabase.Name = ''external-db'', Property = ''connectionString''\<rparr>],
      FromService_cells = [], string_cells = [],
      Previews_cells = [\<lparr>Generation = ''automatic''\<rparr>, \<lparr>Generation = ''none''\<rparr>],
      int_cells = [30, 7]\<rparr>"

definition example_base :: Blueprint where
  "example_base =
     \<lparr>Blueprint.Services =
        [\<lparr>Service.Name = ''api'', Type = ''web'', Runtime = Some ''node'', Plan = None,
          EnvVars = Some \<lparr>array = 0, offset = 0, len = 2\<rparr>\<rparr>],
      Databases =
        [\<lparr>Database.Name = ''main-db'', Plan = None,
          ReadReplicas = Some \<lparr>array = 0, offset = 0, len = 1\<rparr>\<rparr>],
      EnvVarGroups = [], Previews = Some 0, PreviewsExpireAfterDays = Some 0\<rparr>"

definition example_overlay :: Blueprint where
  "example_overlay =
     \<lparr>Blueprint.Services =
        [\<lparr>Service.Name = ''worker'', Type = ''worker'', Runtime = Some ''python'', Plan = None,
          EnvVars = None\<rparr>],
      Databases = [], EnvVarGroups = [], Previews = Some 1, PreviewsExpireAfterDays = Some 1\<rparr>"

text \<open>
  One EnvVar value, \<open>EnvFromDatabase("DATABASE_URL", "db", ...)\<close>, given to two services: each
  service has its own array, and both elements hold the same \<open>*FromDatabase\<close>. The document
  defines the databases db and staging-db.
\<close>

definition shared_store :: store where
  "shared_store =
     \<lparr>EnvVar_arrays = [ [database_ref ''DATABASE_URL'' 0], [database_ref ''DATABASE_URL'' 0] ],
      ReadReplica_arrays = [],
      FromDatabase_cells = [\<lparr>FromDatabase.Name = ''db'', Property = ''connectionString''\<rparr>],
      FromService_cells = [], string_cells = [], Previews_cells = [], int_cells = []\<rparr>"

definition shared_doc :: Blueprint where
  "shared_doc =
     \<lparr>Blueprint.Services =
        [\<lparr>Service.Name = ''api'', Type = ''web'', Runtime = Some ''node'', Plan = None,
          EnvVars = Some \<lparr>array = 0, offset = 0, len = 1\<rparr>\<rparr>,
         \<lparr>Service.Name = ''worker'', Type = ''worker'', Runtime = Some ''node'', Plan = None,
          EnvVars = Some \<lparr>array = 1, offset = 0, len = 1\<rparr>\<rparr>],
      Databases =
        [\<lparr>Database.Name = ''db'', Plan = None, ReadReplicas = None\<rparr>,
         \<lparr>Database.Name = ''staging-db'', Plan = None, ReadReplicas = None\<rparr>],
      EnvVarGroups = [], Previews = None, PreviewsExpireAfterDays = None\<rparr>"

text \<open>A database db with the read replicas db-replica and p-x.\<close>

definition replica_store :: store where
  "replica_store =
     \<lparr>EnvVar_arrays = [],
      ReadReplica_arrays = [ [\<lparr>ReadReplica.Name = ''db-replica''\<rparr>, \<lparr>ReadReplica.Name = ''p-x''\<rparr>] ],
      FromDatabase_cells = [], FromService_cells = [], string_cells = [],
      Previews_cells = [], int_cells = []\<rparr>"

definition replica_doc :: Blueprint where
  "replica_doc =
     \<lparr>Blueprint.Services = [],
      Databases =
        [\<lparr>Database.Name = ''db'', Plan = None,
          ReadReplicas = Some \<lparr>array = 0, offset = 0, len = 2\<rparr>\<rparr>],
      EnvVarGroups = [], Previews = None, PreviewsExpireAfterDays = None\<rparr>"

text \<open>A store without cells, a document whose three entries have the empty name, and a
  document with two services named svc (one without type and runtime) and a database
  without name.\<close>

definition empty_store :: store where
  "empty_store =
     \<lparr>EnvVar_arrays = [], ReadReplica_arrays = [], FromDatabase_cells = [],
      FromService_cells = [], string_cells = [], Previews_cells = [], int_cells = []\<rparr>"

definition unnamed_doc :: Blueprint where
  "unnamed_doc =
     \<lparr>Blueprint.Services =
        [\<lparr>Service.Name = [], Type = ''web'', Runtime = Some ''node'', Plan = None, EnvVars = None\<rparr>],
      Databases = [\<lparr>Database.Name = [], Plan = None, ReadReplicas = None\<rparr>],
      EnvVarGroups = [\<lparr>EnvVarGroup.Name = [], EnvVars = None\<rparr>],
      Previews = None, PreviewsExpireAfterDays = None\<rparr>"

definition duplicate_doc :: Blueprint where
  "duplicate_doc =
     \<lparr>Blueprint.Services =
        [\<lparr>Service.Name = ''svc'', Type = ''web'', Runtime = Some ''node'', Plan = None, EnvVars = None\<rparr>,
         \<lparr>Service.Name = ''svc'', Type = [], Runtime = None, Plan = None, EnvVars = None\<rparr>],
      Databases = [\<lparr>Database.Name = [], Plan = None, ReadReplicas = None\<rparr>],
      EnvVarGroups = [], Previews = None, PreviewsExpireAfterDays = None\<rparr>"

text \<open>The merge of the example base and overlay.\<close>

definition example_merged :: Blueprint where
  "example_merged =
     \<lparr>Blueprint.Services = Blueprint.Services example_base @ Blueprint.Services example_overlay,
      Databases = Blueprint.Databases example_base,
      EnvVarGroups = [], Previews = Some 1, PreviewsExpireAfterDays = Some 1\<rparr>"

text \<open>Documents given by the names of their entries.\<close>

definition service_named :: "string \<Rightarrow> Service" where
  "service_named n =
     \<lparr>Service.Name = n, Type = ''web'', Runtime = Some ''node'', Plan = None, EnvVars = None\<rparr>"

definition database_named :: "string \<Rightarrow> Database" where
  "database_named n = \<lparr>Database.Name = n, Plan = None, ReadReplicas = None\<rparr>"

definition group_named :: "string \<Rightarrow> EnvVarGroup" where
  "group_named n = \<lparr>EnvVarGroup.Name = n, EnvVars = None\<rparr>"

definition document_named :: "string list \<Rightarrow> string list \<Rightarrow> string list \<Rightarrow> Blueprint" where
  "document_named services databases groups =
     \<lparr>Blueprint.Services = map service_named services,
      Databases = map database_named databases,
      EnvVarGroups = map group_named groups,
      Previews = None, PreviewsExpireAfterDays = None\<rparr>"

text \<open>A base with the service b and an overlay with two services named b.\<close>

definition repeated_base :: Blueprint where
  "repeated_base = document_named [''b''] [] []"

definition repeated_overlay :: Blueprint where
  "repeated_overlay = document_named [''b'', ''b''] [] []"

text \<open>A base and an overlay with distinct names in each kind; the overlay lists the names
  it has in common with the base in another order than the base does.\<close>

definition ordered_base :: Blueprint where
  "ordered_base = document_named [''a'', ''b'', ''c''] [''d1'', ''d2''] [''g'']"

definition ordered_overlay :: Blueprint where
  "ordered_overlay = document_named [''c'', ''x'', ''a''] [''d2'', ''y'', ''d1''] [''h'', ''g'']"

section \<open>Properties of FindConflicts\<close>

lemma lookup_bool_marks:
  "lookup_bool (fold (\<lambda>x. mark (f x)) xs m) n \<longleftrightarrow> n \<in> f ` set xs \<or> lookup_bool m n"
  by (induction xs arbitrary: m) (auto simp: mark_def lookup_bool_def)

lemma lookup_bool_empty: "lookup_bool Map.empty n = False"
  by (simp add: lookup_bool_def)

lemma fold_report_conflict:
  "fold (\<lambda>x. report_conflict m what (f x)) xs acc =
     acc @ map (\<lambda>n. what @ n) (filter (lookup_bool m) (map f xs))"
  by (induction xs arbitrary: acc) (simp_all add: report_conflict_def)

text \<open>
  C8, as stated: one description per same-kind name collision, a collision being a name
  that both documents define for the kind. This fails when the overlay repeats a name.
  The base defines the service b and the overlay has two services named b: there is one
  colliding name and FindConflicts returns two descriptions.
\<close>

theorem FindConflicts_repeated_name_counterexample:
  "FindConflicts (Some repeated_base) (Some repeated_overlay)
     = [''service name conflict: b'', ''service name conflict: b'']
   \<and> set (service_names repeated_base) \<inter> set (service_names repeated_overlay) = {''b''}
   \<and> set (database_names repeated_base) \<inter> set (database_names repeated_overlay) = {}
   \<and> set (group_names repeated_base) \<inter> set (group_names repeated_overlay) = {}
   \<and> length (FindConflicts (Some repeated_base) (Some repeated_overlay)) = 2
   \<and> card (set (service_names repeated_base) \<inter> set (service_names repeated_overlay)) = 1"
proof -
  have f: "FindConflicts (Some repeated_base) (Some repeated_overlay)
      = [''service name conflict: b'', ''service name conflict: b'']"
    by code_simp
  have n: "service_names repeated_base = [''b'']" "service_names repeated_overlay = [''b'', ''b'']"
    "database_names repeated_base = []" "database_names repeated_overlay = []"
    "group_names repeated_base = []" "group_names repeated_overlay = []"
    by (simp_all add: service_names_def database_names_def group_names_def
        repeated_base_def repeated_overlay_def document_named_def
        service_named_def database_named_def group_named_def)
  show ?thesis
    by (simp add: f n)
qed

text \<open>
  C8, amended. FindConflicts returns one description per overlay entry whose name the base
  defines for the same kind, so a name that the overlay repeats is reported once for each
  of its entries: the service collisions first, then the database collisions, then the
  env-group collisions, each kind in the overlay's entry order. When the overlay's names
  of a kind are distinct, these are the names that both documents define, each reported
  once. If either document is absent the result is the empty sequence.
\<close>

theorem FindConflicts_order:
  "FindConflicts (Some b) (Some ov) =
       map (\<lambda>n. ''service name conflict: '' @ n)
           (collisions (service_names b) (service_names ov))
     @ map (\<lambda>n. ''database name conflict: '' @ n)
           (collisions (database_names b) (database_names ov))
     @ map (\<lambda>n. ''environment group name conflict: '' @ n)
           (collisions (group_names b) (group_names ov))
   \<and> (distinct (service_names ov) \<longrightarrow>
        distinct (collisions (service_names b) (service_names ov))
      \<and> set (collisions (service_names b) (service_names ov))
          = set (service_names b) \<inter> set (service_names ov))
   \<and> (distinct (database_names ov) \<longrightarrow>
        distinct (collisions (database_names b) (database_names ov))
      \<and> set (collisions (database_names b) (database_names ov))
          = set (database_names b) \<inter> set (database_names ov))
   \<and> (distinct (group_names ov) \<longrightarrow>
        distinct (collisions (group_names b) (group_names ov))
      \<and> set (collisions (group_names b) (group_names ov))
          = set (group_names b) \<inter> set (group_names ov))
   \<and> FindConflicts None overlay = []
   \<and> FindConflicts base None = []"
proof -
  have in_base: "\<And>f xs. lookup_bool (fold (\<lambda>x. mark (f x)) xs Map.empty) = (\<lambda>n. n \<in> set (map f xs))"
    by (rule ext) (simp add: lookup_bool_marks lookup_bool_empty)
  have c: "\<And>xs ys. set (collisions xs ys) = set xs \<inter> set ys"
    "\<And>xs ys. distinct ys \<Longrightarrow> distinct (collisions xs ys)"
    by (auto simp: collisions_def)
  have "FindConflicts base None = []"
    by (cases base) (simp_all add: FindConflicts_def)
  then show ?thesis
    by (simp add: c)
      (simp add: FindConflicts_def Let_def fold_report_conflict in_base collisions_def
        service_names_def database_names_def group_names_def)
qed

theorem FindConflicts_order_witness:
  "distinct (service_names ordered_overlay) \<and> distinct (database_names ordered_overlay)
   \<and> distinct (group_names ordered_overlay)
   \<and> FindConflicts (Some ordered_base) (Some ordered_overlay)
       = [''service name conflict: c'', ''service name conflict: a'',
          ''database name conflict: d2'', ''database name conflict: d1'',
          ''environment group name conflict: g'']
   \<and> collisions (service_names ordered_base) (service_names ordered_overlay) = [''c'', ''a'']
   \<and> distinct (collisions (service_names ordered_base) (service_names ordered_overlay))
   \<and> set (service_names ordered_base) \<inter> set (service_names ordered_overlay) = {''a'', ''c''}
   \<and> set (database_names ordered_base) \<inter> set (database_names ordered_overlay) = {''d1'', ''d2''}
   \<and> set (group_names ordered_base) \<inter> set (group_names ordered_overlay) = {''g''}"
proof -
  have n: "service_names ordered_base = [''a'', ''b'', ''c'']"
    "service_names ordered_overlay = [''c'', ''x'', ''a'']"
    "database_names ordered_base = [''d1'', ''d2'']"
    "database_names ordered_overlay = [''d2'', ''y'', ''d1'']"
    "group_names ordered_base = [''g'']" "group_names ordered_overlay = [''h'', ''g'']"
    by (simp_all add: service_names_def database_names_def group_names_def
        ordered_base_def ordered_overlay_def document_named_def
        service_named_def database_named_def group_named_def)
  have d: "distinct (service_names ordered_overlay)" "distinct (database_names ordered_overlay)"
    "distinct (group_names ordered_overlay)"
    by (simp_all add: n)
  have c: "collisions [''a'', ''b'', ''c''] [''c'', ''x'', ''a''] = [''c'', ''a'']"
    "collisions [''d1'', ''d2''] [''d2'', ''y'', ''d1''] = [''d2'', ''d1'']"
    "collisions [''g''] [''h'', ''g''] = [''g'']"
    by (simp_all add: collisions_def)
  from FindConflicts_order[of ordered_base ordered_overlay] d
  have "FindConflicts (Some ordered_base) (Some ordered_overlay)
       = [''service name conflict: c'', ''service name conflict: a'',
          ''database name conflict: d2'', ''database name conflict: d1'',
          ''environment group name conflict: g'']"
    and "distinct (collisions (service_names ordered_base) (service_names ordered_overlay))"
    and "set (collisions (service_names ordered_base) (service_names ordered_overlay))
          = set (service_names ordered_base) \<inter> set (service_names ordered_overlay)"
    and "set (collisions (database_names ordered_base) (database_names ordered_overlay))
          = set (database_names ordered_base) \<inter> set (database_names ordered_overlay)"
    and "set (collisions (group_names ordered_base) (group_names ordered_overlay))
          = set (group_names ordered_base) \<inter> set (group_names ordered_overlay)"
    by (simp_all add: n c)
  then show ?thesis
    using d by (auto simp: n c)
qed

section \<open>Properties of CopyBlueprint and MergeBlueprints\<close>

lemma CopyBlueprint_collections:
  "Blueprint.Services (snd (CopyBlueprint st (Some b))) = Blueprint.Services b"
  "Blueprint.Databases (snd (CopyBlueprint st (Some b))) = Blueprint.Databases b"
  "Blueprint.EnvVarGroups (snd (CopyBlueprint st (Some b))) = Blueprint.EnvVarGroups b"
  by (simp_all add: CopyBlueprint_def empty_Blueprint_def Let_def split: option.splits prod.splits)

lemma CopyBlueprint_None: "CopyBlueprint st None = (st, empty_Blueprint)"
  by (simp add: CopyBlueprint_def)

lemma FindConflicts_None: "FindConflicts None x = []" "FindConflicts y None = []"
  by (simp_all add: FindConflicts_def split: option.splits)

lemma MergeBlueprints_present:
  "MergeBlueprints st (Some b) (Some ov) =
     (if FindConflicts (Some b) (Some ov) \<noteq> []
      then (st, Inl (''merge conflicts found: '' @ strings_Join (FindConflicts (Some b) (Some ov)) '', ''
                       @ ''. Use PrefixBlueprint() to avoid name conflicts before merging''))
      else (st, Inr \<lparr>Blueprint.Services = Blueprint.Services b @ Blueprint.Services ov,
                     Databases = Blueprint.Databases b @ Blueprint.Databases ov,
                     EnvVarGroups = Blueprint.EnvVarGroups b @ Blueprint.EnvVarGroups ov,
                     Previews = (if Blueprint.Previews ov \<noteq> None then Blueprint.Previews ov
                                 else Blueprint.Previews b),
                     PreviewsExpireAfterDays =
                       (if Blueprint.PreviewsExpireAfterDays ov \<noteq> None
                        then Blueprint.PreviewsExpireAfterDays ov
                        else Blueprint.PreviewsExpireAfterDays b)\<rparr>))"
  by (simp add: MergeBlueprints_def Let_def empty_Blueprint_def)

lemma MergeBlueprints_absent:
  "MergeBlueprints st None None = (st, Inr empty_Blueprint)"
  "MergeBlueprints st None (Some ov) = (fst (CopyBlueprint st (Some ov)), Inr (snd (CopyBlueprint st (Some ov))))"
  "MergeBlueprints st (Some b) None = (fst (CopyBlueprint st (Some b)), Inr (snd (CopyBlueprint st (Some b))))"
  by (simp_all add: MergeBlueprints_def split: prod.splits)

text \<open>
  C3. MergeBlueprints returns an error if and only if FindConflicts is non-empty. When it
  succeeds, each of the result's three collections is the base's entries followed by the
  overlay's, in their original order, so its length is the sum of the two lengths (an
  absent document has no entries).
\<close>

theorem MergeBlueprints_conflicts:
  "((\<exists>e. snd (MergeBlueprints st a b) = Inl e) \<longleftrightarrow> FindConflicts a b \<noteq> [])
   \<and> (\<forall>m. snd (MergeBlueprints st a b) = Inr m \<longrightarrow>
          Blueprint.Services m = GetServices a @ GetServices b
        \<and> Blueprint.Databases m = GetDatabases a @ GetDatabases b
        \<and> Blueprint.EnvVarGroups m = GetEnvVarGroups a @ GetEnvVarGroups b
        \<and> length (Blueprint.Services m) = length (GetServices a) + length (GetServices b)
        \<and> length (Blueprint.Databases m) = length (GetDatabases a) + length (GetDatabases b)
        \<and> length (Blueprint.EnvVarGroups m)
            = length (GetEnvVarGroups a) + length (GetEnvVarGroups b))"
proof (cases a)
  case None
  then show ?thesis
    by (cases b)
      (auto simp: MergeBlueprints_absent FindConflicts_None CopyBlueprint_collections
        GetServices_def GetDatabases_def GetEnvVarGroups_def empty_Blueprint_def)
next
  case (Some x)
  then show ?thesis
    by (cases b)
      (auto simp: MergeBlueprints_absent MergeBlueprints_present FindConflicts_None
        CopyBlueprint_collections GetServices_def GetDatabases_def GetEnvVarGroups_def)
qed

theorem MergeBlueprints_conflicts_witness:
  "FindConflicts (Some example_base) (Some example_overlay) = []
   \<and> (\<exists>m. snd (MergeBlueprints example_store (Some example_base) (Some example_overlay)) = Inr m
        \<and> service_names m = [''api'', ''worker'']
        \<and> length (Blueprint.Services m) = 2)"
proof -
  have c: "FindConflicts (Some example_base) (Some example_overlay) = []"
    by code_simp
  obtain m where m: "snd (MergeBlueprints example_store (Some example_base) (Some example_overlay)) = Inr m"
    using MergeBlueprints_conflicts[of example_store "Some example_base" "Some example_overlay"] c
    by (cases "snd (MergeBlueprints example_store (Some example_base) (Some example_overlay))") auto
  from m MergeBlueprints_conflicts[of example_store "Some example_base" "Some example_overlay"]
  have "Blueprint.Services m = GetServices (Some example_base) @ GetServices (Some example_overlay)"
    by blast
  then have "service_names m = [''api'', ''worker''] \<and> length (Blueprint.Services m) = 2"
    by (simp add: service_names_def GetServices_def example_base_def example_overlay_def)
  with c m show ?thesis by blast
qed

lemma deref_append: "deref (xs @ ys) a = (if a < length xs then deref xs a else deref ys (a - length xs))"
  by (auto simp: deref_def nth_append)

lemma CopyBlueprint_settings:
  "Blueprint_snapshot.Previews (snapshot (fst (CopyBlueprint st (Some b))) (snd (CopyBlueprint st (Some b))))
     = Blueprint_snapshot.Previews (snapshot st b)"
  "Blueprint_snapshot.PreviewsExpireAfterDays
       (snapshot (fst (CopyBlueprint st (Some b))) (snd (CopyBlueprint st (Some b))))
     = Blueprint_snapshot.PreviewsExpireAfterDays (snapshot st b)"
  by (auto simp: CopyBlueprint_def Let_def snapshot_def empty_Blueprint_def deref_append
      split: option.splits prod.splits)
    (simp_all add: deref_def)

text \<open>
  C7. When base and overlay are both present and free of conflicts, MergeBlueprints
  succeeds and leaves the store as it is; each of the two optional settings (preview
  policy, preview expiry days) of the result is the overlay's pointer when the overlay
  sets one and the base's otherwise, and so reads the overlay's value when the overlay
  specifies one and the base's value otherwise. When one of the documents is absent, the
  settings of the result read as those of the other.
\<close>

theorem MergeBlueprints_overlay_wins:
  "(FindConflicts (Some a) (Some b) = [] \<longrightarrow>
     (\<exists>m. MergeBlueprints st (Some a) (Some b) = (st, Inr m)
        \<and> Blueprint.Previews m
            = (if Blueprint.Previews b \<noteq> None then Blueprint.Previews b else Blueprint.Previews a)
        \<and> Blueprint.PreviewsExpireAfterDays m
            = (if Blueprint.PreviewsExpireAfterDays b \<noteq> None
               then Blueprint.PreviewsExpireAfterDays b else Blueprint.PreviewsExpireAfterDays a)
        \<and> Blueprint_snapshot.Previews (snapshot st m)
            = (if Blueprint.Previews b \<noteq> None then Blueprint_snapshot.Previews (snapshot st b)
               else Blueprint_snapshot.Previews (snapshot st a))
        \<and> Blueprint_snapshot.PreviewsExpireAfterDays (snapshot st m)
            = (if Blueprint.PreviewsExpireAfterDays b \<noteq> None
               then Blueprint_snapshot.PreviewsExpireAfterDays (snapshot st b)
               else Blueprint_snapshot.PreviewsExpireAfterDays (snapshot st a))))
   \<and> (\<exists>st' m. MergeBlueprints st None (Some b) = (st', Inr m)
        \<and> Blueprint_snapshot.Previews (snapshot st' m) = Blueprint_snapshot.Previews (snapshot st b)
        \<and> Blueprint_snapshot.PreviewsExpireAfterDays (snapshot st' m)
            = Blueprint_snapshot.PreviewsExpireAfterDays (snapshot st b))
   \<and> (\<exists>st' m. MergeBlueprints st (Some a) None = (st', Inr m)
        \<and> Blueprint_snapshot.Previews (snapshot st' m) = Blueprint_snapshot.Previews (snapshot st a)
        \<and> Blueprint_snapshot.PreviewsExpireAfterDays (snapshot st' m)
            = Blueprint_snapshot.PreviewsExpireAfterDays (snapshot st a))"
  by (simp add: MergeBlueprints_present MergeBlueprints_absent CopyBlueprint_settings)
    (simp add: snapshot_def)

theorem MergeBlueprints_overlay_wins_witness:
  "FindConflicts (Some example_base) (Some example_overlay) = []
   \<and> (\<exists>m. MergeBlueprints example_store (Some example_base) (Some example_overlay)
            = (example_store, Inr m)
        \<and> Blueprint_snapshot.Previews (snapshot example_store m) = Some \<lparr>Generation = ''none''\<rparr>
        \<and> Blueprint_snapshot.PreviewsExpireAfterDays (snapshot example_store m) = Some 7)"
proof -
  have c: "FindConflicts (Some example_base) (Some example_overlay) = []"
    by code_simp
  have b: "Blueprint.Previews example_overlay \<noteq> None"
      "Blueprint.PreviewsExpireAfterDays example_overlay \<noteq> None"
      "Blueprint_snapshot.Previews (snapshot example_store example_overlay)
         = Some \<lparr>Generation = ''none''\<rparr>"
      "Blueprint_snapshot.PreviewsExpireAfterDays (snapshot example_store example_overlay) = Some 7"
    by (simp_all add: example_overlay_def example_store_def snapshot_def deref_def)
  from MergeBlueprints_overlay_wins[of example_base example_overlay example_store] b c
  show ?thesis
    by auto
qed

text \<open>MergeBlueprints writes no cell that exists: in the store it leaves, every document whose
  top-level pointers were allocated reads as before.\<close>

lemma CopyBlueprint_store:
  "EnvVar_arrays (fst (CopyBlueprint st bp)) = EnvVar_arrays st"
  "ReadReplica_arrays (fst (CopyBlueprint st bp)) = ReadReplica_arrays st"
  "FromDatabase_cells (fst (CopyBlueprint st bp)) = FromDatabase_cells st"
  "FromService_cells (fst (CopyBlueprint st bp)) = FromService_cells st"
  "string_cells (fst (CopyBlueprint st bp)) = string_cells st"
  "\<exists>ps. Previews_cells (fst (CopyBlueprint st bp)) = Previews_cells st @ ps"
  "\<exists>ds. int_cells (fst (CopyBlueprint st bp)) = int_cells st @ ds"
  by (simp_all add: CopyBlueprint_def Let_def split: option.splits prod.splits)

lemma snapshot_extended:
  assumes "EnvVar_arrays st' = EnvVar_arrays st"
    and "ReadReplica_arrays st' = ReadReplica_arrays st"
    and "FromDatabase_cells st' = FromDatabase_cells st"
    and "FromService_cells st' = FromService_cells st"
    and "string_cells st' = string_cells st"
    and "Previews_cells st' = Previews_cells st @ ps"
    and "int_cells st' = int_cells st @ ds"
    and "allocated st x"
  shows "snapshot st' x = snapshot st x"
proof -
  have e: "snapshot_EnvVar st' = snapshot_EnvVar st"
    by (rule ext) (simp add: snapshot_EnvVar_def assms)
  have s: "snapshot_Service st' = snapshot_Service st"
    by (rule ext) (simp add: snapshot_Service_def snapshot_EnvVars_def e assms)
  have d: "snapshot_Database st' = snapshot_Database st"
    by (rule ext) (simp add: snapshot_Database_def assms)
  have g: "snapshot_EnvVarGroup st' = snapshot_EnvVarGroup st"
    by (rule ext) (simp add: snapshot_EnvVarGroup_def snapshot_EnvVars_def e assms)
  have p: "Option.bind (Blueprint.Previews x) (deref (Previews_cells st'))
      = Option.bind (Blueprint.Previews x) (deref (Previews_cells st))"
    using assms(8) by (cases "Blueprint.Previews x") (simp_all add: allocated_def deref_def assms(6) nth_append)
  have i: "Option.bind (Blueprint.PreviewsExpireAfterDays x) (deref (int_cells st'))
      = Option.bind (Blueprint.PreviewsExpireAfterDays x) (deref (int_cells st))"
    using assms(8) by (cases "Blueprint.PreviewsExpireAfterDays x") (simp_all add: allocated_def deref_def assms(7) nth_append)
  show ?thesis
    by (simp add: snapshot_def s d g p i)
qed

lemma MergeBlueprints_leaves_inputs:
  assumes "allocated st x"
  shows "snapshot (fst (MergeBlueprints st a b)) x = snapshot st x"
proof -
  have copy: "snapshot (fst (CopyBlueprint st bp)) x = snapshot st x" for bp
  proof -
    obtain ps ds where "Previews_cells (fst (CopyBlueprint st bp)) = Previews_cells st @ ps"
      "int_cells (fst (CopyBlueprint st bp)) = int_cells st @ ds"
      using CopyBlueprint_store(6,7)[of st bp] by blast
    then show ?thesis
      by (rule snapshot_extended[OF CopyBlueprint_store(1-5) _ _ assms])
  qed
  show ?thesis
  proof (cases a)
    case None
    then show ?thesis
      by (cases b) (simp_all add: MergeBlueprints_absent copy)
  next
    case (Some a')
    then show ?thesis
      by (cases b) (simp_all add: MergeBlueprints_absent MergeBlueprints_present copy)
  qed
qed

text \<open>
  C6. The claim is that the result of MergeBlueprints shares no mutable structure with its
  inputs. On the example the merged document holds the overlay's \<open>*Previews\<close> itself and
  the base's \<open>[]EnvVar\<close> array with its \<open>*FromDatabase\<close> cells: assigning
  \<open>merged.Previews.Generation\<close> changes what the overlay reads, and prefixing the merged
  document rewrites the reference of the base. CopyBlueprint, which is the result when one
  input is nil, gives the copy a new \<open>*Previews\<close> cell, but its services hold the
  input's \<open>[]EnvVar\<close> arrays too.
\<close>

theorem MergeBlueprints_shares_structure:
  "MergeBlueprints example_store (Some example_base) (Some example_overlay)
     = (example_store, Inr example_merged)
   \<and> Blueprint.Previews example_merged = Blueprint.Previews example_overlay
   \<and> Service.EnvVars (Blueprint.Services example_merged ! 0)
     = Service.EnvVars (Blueprint.Services example_base ! 0)
   \<and> Blueprint_snapshot.Previews (snapshot example_store example_overlay)
     = Some \<lparr>Generation = ''none''\<rparr>
   \<and> Blueprint_snapshot.Previews
       (snapshot (assign_Generation example_merged ''automatic'' example_store) example_overlay)
     = Some \<lparr>Generation = ''automatic''\<rparr>
   \<and> map_option service_database_refs
       (map_option (\<lambda>(st', r). snapshot st' example_base)
          (PrefixBlueprint example_store (Some example_merged) ''prod-''))
     = Some [ [Some ''prod-main-db'', Some ''external-db''] ]
   \<and> Blueprint.Previews (snd (CopyBlueprint example_store (Some example_overlay))) = Some 2
   \<and> snd (MergeBlueprints example_store None (Some example_base))
     = Inr (snd (CopyBlueprint example_store (Some example_base)))
   \<and> Service.EnvVars (Blueprint.Services (snd (CopyBlueprint example_store (Some example_base))) ! 0)
     = Service.EnvVars (Blueprint.Services example_base ! 0)"
  by code_simp

section \<open>Properties of PrefixBlueprint\<close>

subsection \<open>Renaming and the read-replica loop\<close>

lemma fold_mark:
  "fold (\<lambda>x. mark (f x)) xs m n = (if n \<in> f ` set xs then Some True else m n)"
  by (induction xs arbitrary: m) (auto simp: mark_def)

lemma name_map_defined:
  "name_map p (fold (\<lambda>x. mark (f x)) xs Map.empty) n
     = (if n \<in> f ` set xs then Some (p @ n) else None)"
  by (simp add: name_map_def fold_mark)

lemma slice_to_Some:
  "length p \<le> length n \<Longrightarrow> slice_to n (int (length n) - int (length p)) = Some (take (length n - length p) n)"
  by (simp add: slice_to_def nat_diff_distrib')

lemma updateReplica_total:
  "length p \<le> length n \<Longrightarrow> \<exists>st'. updateReplica p n s j st = Some st'"
  by (simp add: updateReplica_def slice_to_Some split: option.splits)

lemma fold_option_total:
  "(\<And>x s. x \<in> set xs \<Longrightarrow> \<exists>s'. f x s = Some s') \<Longrightarrow> \<exists>s'. fold_option f xs s = Some s'"
proof (induction xs arbitrary: s)
  case Nil
  then show ?case by simp
next
  case (Cons x xs)
  from Cons.prems[of x s] obtain s1 where s1: "f x s = Some s1" by auto
  from Cons.IH[of s1] Cons.prems obtain s2 where "fold_option f xs s1 = Some s2" by auto
  with s1 show ?case by simp
qed

lemma updateReadReplicas_total:
  "length p \<le> length (Database.Name db) \<Longrightarrow> \<exists>st'. updateReadReplicas p db st = Some st'"
  unfolding updateReadReplicas_def
  by (cases "Database.ReadReplicas db") (auto intro!: fold_option_total updateReplica_total)

lemma rename_services_all:
  "rename_services (name_map p (fold (\<lambda>s. mark (Service.Name s)) (Blueprint.Services c) Map.empty)) c
     = c\<lparr>Blueprint.Services := map (\<lambda>s. s\<lparr>Service.Name := p @ Service.Name s\<rparr>) (Blueprint.Services c)\<rparr>"
  by (simp add: rename_services_def name_map_defined cong: map_cong)

lemma rename_databases_all:
  "rename_databases (name_map p (fold (\<lambda>s. mark (Database.Name s)) (Blueprint.Databases c) Map.empty)) c
     = c\<lparr>Blueprint.Databases := map (\<lambda>s. s\<lparr>Database.Name := p @ Database.Name s\<rparr>) (Blueprint.Databases c)\<rparr>"
  by (simp add: rename_databases_def name_map_defined cong: map_cong)

lemma rename_groups_all:
  "rename_groups (name_map p (fold (\<lambda>s. mark (EnvVarGroup.Name s)) (Blueprint.EnvVarGroups c) Map.empty)) c
     = c\<lparr>Blueprint.EnvVarGroups := map (\<lambda>s. s\<lparr>EnvVarGroup.Name := p @ EnvVarGroup.Name s\<rparr>) (Blueprint.EnvVarGroups c)\<rparr>"
  by (simp add: rename_groups_def name_map_defined cong: map_cong)

lemma PrefixBlueprint_unfold:
  assumes "p \<noteq> []" and c: "CopyBlueprint st (Some d) = (st1, c)"
  shows "PrefixBlueprint st (Some d) p =
      (case fold_option (updateReadReplicas p) (Blueprint.Databases (prefixed_names p c))
          (fold (\<lambda>group. updateEnvVarReferences
                   (databaseNameMap p c) (serviceNameMap p c) (envGroupNameMap p c)
                   (EnvVarGroup.EnvVars group))
             (Blueprint.EnvVarGroups (prefixed_names p c))
             (fold (\<lambda>service. updateEnvVarReferences
                      (databaseNameMap p c) (serviceNameMap p c) (envGroupNameMap p c)
                      (Service.EnvVars service))
                (Blueprint.Services (prefixed_names p c)) st1)) of
         None \<Rightarrow> None | Some st' \<Rightarrow> Some (st', prefixed_names p c))"
proof -
  have names: "rename_groups (envGroupNameMap p c)
      (rename_databases (databaseNameMap p c) (rename_services (serviceNameMap p c) c))
      = prefixed_names p c"
    unfolding serviceNameMap_def rename_services_all
    by (simp add: rename_databases_def rename_groups_def name_map_defined prefixed_names_def
        databaseNameMap_def envGroupNameMap_def cong: map_cong)
  show ?thesis
    using assms(1)
    unfolding PrefixBlueprint_def Let_def c prod.case
      serviceNameMap_def[symmetric] databaseNameMap_def[symmetric] envGroupNameMap_def[symmetric]
      names
    by simp
qed

lemma fold_option_invariant:
  assumes "\<And>x s s'. f x s = Some s' \<Longrightarrow> P s \<Longrightarrow> P s'"
  shows "fold_option f xs s = Some s' \<Longrightarrow> P s \<Longrightarrow> P s'"
proof (induction xs arbitrary: s)
  case Nil
  then show ?case by simp
next
  case (Cons x xs)
  then show ?case
    by (auto split: option.splits intro: assms)
qed

lemma updateReplica_references:
  "updateReplica p n s j st = Some st' \<Longrightarrow> same_references st0 st \<Longrightarrow> same_references st0 st'"
  by (auto simp: updateReplica_def same_references_def split: option.splits if_splits)

lemma updateReadReplicas_references:
  "updateReadReplicas p db st = Some st' \<Longrightarrow> same_references st0 st \<Longrightarrow> same_references st0 st'"
  unfolding updateReadReplicas_def
  by (cases "Database.ReadReplicas db")
    (auto elim: fold_option_invariant[rotated] intro: updateReplica_references)

lemma updateReadReplicas_loop_references:
  assumes "fold_option (updateReadReplicas p) dbs st = Some st'"
  shows "same_references st st'"
proof -
  have "same_references st st"
    by (simp add: same_references_def)
  with assms show ?thesis
    by (rule fold_option_invariant[where P = "same_references st", rotated])
      (rule updateReadReplicas_references)
qed

subsection \<open>The loop over the references\<close>

lemma deref_update: "deref (xs[a := v]) b = (if a = b then map_option (\<lambda>_. v) (deref xs b) else deref xs b)"
  by (simp add: deref_def)

lemma updateEnvVar_fields:
  "EnvVar_arrays (updateEnvVar dm sm gm e st) = EnvVar_arrays st"
  "ReadReplica_arrays (updateEnvVar dm sm gm e st) = ReadReplica_arrays st"
  "Previews_cells (updateEnvVar dm sm gm e st) = Previews_cells st"
  "int_cells (updateEnvVar dm sm gm e st) = int_cells st"
  by (simp_all add: updateEnvVar_def Let_def split: option.splits)

lemma updateEnvVar_FromDatabase:
  "deref (FromDatabase_cells (updateEnvVar dm sm gm e st)) a =
     (if EnvVar.FromDatabase e = Some a
      then map_option (rename_FromDatabase dm) (deref (FromDatabase_cells st) a)
      else deref (FromDatabase_cells st) a)"
  by (auto simp: updateEnvVar_def Let_def deref_update rename_FromDatabase_def split: option.splits)

lemma updateEnvVar_FromService:
  "deref (FromService_cells (updateEnvVar dm sm gm e st)) a =
     (if EnvVar.FromService e = Some a
      then map_option (rename_FromService sm) (deref (FromService_cells st) a)
      else deref (FromService_cells st) a)"
  by (auto simp: updateEnvVar_def Let_def deref_update rename_FromService_def split: option.splits)

lemma updateEnvVar_FromGroup:
  "deref (string_cells (updateEnvVar dm sm gm e st)) a =
     (if EnvVar.FromGroup e = Some a
      then map_option (rename_FromGroup gm) (deref (string_cells st) a)
      else deref (string_cells st) a)"
  by (auto simp: updateEnvVar_def Let_def deref_update rename_FromGroup_def split: option.splits)

lemma map_option_funpow_Suc: "map_option (f ^^ n) (map_option f x) = map_option (f ^^ Suc n) x"
  by (cases x) (simp_all add: funpow_swap1)

lemma fold_updateEnvVar_fields:
  "EnvVar_arrays (fold (updateEnvVar dm sm gm) es st) = EnvVar_arrays st"
  "ReadReplica_arrays (fold (updateEnvVar dm sm gm) es st) = ReadReplica_arrays st"
  "Previews_cells (fold (updateEnvVar dm sm gm) es st) = Previews_cells st"
  "int_cells (fold (updateEnvVar dm sm gm) es st) = int_cells st"
  by (induction es arbitrary: st) (simp_all add: updateEnvVar_fields)

lemma fold_updateEnvVar_FromDatabase:
  "deref (FromDatabase_cells (fold (updateEnvVar dm sm gm) es st)) a =
     map_option (rename_FromDatabase dm ^^ count_list (map EnvVar.FromDatabase es) (Some a))
       (deref (FromDatabase_cells st) a)"
proof (induction es arbitrary: st)
  case Nil
  then show ?case by (simp add: option.map_ident)
next
  case (Cons e es)
  show ?case
    by (simp add: Cons.IH updateEnvVar_FromDatabase map_option_funpow_Suc del: funpow.simps)
qed

lemma fold_updateEnvVar_FromService:
  "deref (FromService_cells (fold (updateEnvVar dm sm gm) es st)) a =
     map_option (rename_FromService sm ^^ count_list (map EnvVar.FromService es) (Some a))
       (deref (FromService_cells st) a)"
proof (induction es arbitrary: st)
  case Nil
  then show ?case by (simp add: option.map_ident)
next
  case (Cons e es)
  show ?case
    by (simp add: Cons.IH updateEnvVar_FromService map_option_funpow_Suc del: funpow.simps)
qed

lemma fold_updateEnvVar_FromGroup:
  "deref (string_cells (fold (updateEnvVar dm sm gm) es st)) a =
     map_option (rename_FromGroup gm ^^ count_list (map EnvVar.FromGroup es) (Some a))
       (deref (string_cells st) a)"
proof (induction es arbitrary: st)
  case Nil
  then show ?case by (simp add: option.map_ident)
next
  case (Cons e es)
  show ?case
    by (simp add: Cons.IH updateEnvVar_FromGroup map_option_funpow_Suc del: funpow.simps)
qed

text \<open>The loop over the indices of a slice visits the elements of the slice.\<close>

lemma fold_indices:
  "fold (\<lambda>i s. case deref xs (off + i) of None \<Rightarrow> s | Some e \<Rightarrow> f e s) [0..<n] s
     = fold f (take n (drop off xs)) s"
proof (induction n)
  case 0
  then show ?case by simp
next
  case (Suc n)
  have t: "take (Suc n) (drop off xs)
      = take n (drop off xs) @ (if off + n < length xs then [xs ! (off + n)] else [])"
    by (simp add: take_Suc_conv_app_nth)
  have d: "deref xs (off + n) = (if off + n < length xs then Some (xs ! (off + n)) else None)"
    by (simp add: deref_def)
  show ?case
    by (simp add: Suc.IH t d)
qed

lemma updateEnvVarReferences_fold:
  "updateEnvVarReferences dm sm gm sl st
     = fold (updateEnvVar dm sm gm) (slice_elems (EnvVar_arrays st) sl) st"
proof (cases sl)
  case None
  then show ?thesis by (simp add: updateEnvVarReferences_def slice_elems_def)
next
  case (Some s)
  define A where "A = EnvVar_arrays st"
  have inv: "EnvVar_arrays (fold (\<lambda>i st. case slice_elem A s i of None \<Rightarrow> st
                      | Some envVar \<Rightarrow> updateEnvVar dm sm gm envVar st) is st') = EnvVar_arrays st'"
    for "is" st'
    by (induction "is" arbitrary: st') (simp_all add: updateEnvVar_fields split: option.splits)
  have same: "EnvVar_arrays st' = A \<Longrightarrow>
      fold (\<lambda>i st. case slice_elem (EnvVar_arrays st) s i of None \<Rightarrow> st
                      | Some envVar \<Rightarrow> updateEnvVar dm sm gm envVar st) is st'
      = fold (\<lambda>i st. case slice_elem A s i of None \<Rightarrow> st
                      | Some envVar \<Rightarrow> updateEnvVar dm sm gm envVar st) is st'"
    for "is" st'
  proof (induction "is" arbitrary: st')
    case Nil
    then show ?case by simp
  next
    case (Cons i "is")
    have "EnvVar_arrays (case slice_elem A s i of None \<Rightarrow> st'
                      | Some envVar \<Rightarrow> updateEnvVar dm sm gm envVar st') = A"
      using Cons.prems by (simp add: updateEnvVar_fields split: option.splits)
    from Cons.IH[OF this] Cons.prems show ?case by simp
  qed
  show ?thesis
  proof (cases "deref A (array s)")
    case None
    have "fold (\<lambda>i st. case slice_elem A s i of None \<Rightarrow> st
                      | Some envVar \<Rightarrow> updateEnvVar dm sm gm envVar st) is st' = st'" for "is" st'
      by (induction "is" arbitrary: st') (simp_all add: slice_elem_def None)
    then show ?thesis
      using Some None same[of st "[0..<len s]"]
      by (simp add: updateEnvVarReferences_def slice_elems_def A_def)
  next
    case (Some xs)
    have "fold (\<lambda>i st. case slice_elem A s i of None \<Rightarrow> st
                      | Some envVar \<Rightarrow> updateEnvVar dm sm gm envVar st) [0..<len s] st
        = fold (updateEnvVar dm sm gm) (take (len s) (drop (offset s) xs)) st"
      using fold_indices[where xs = xs and off = "offset s" and f = "updateEnvVar dm sm gm"
          and n = "len s" and s = st]
      by (simp add: slice_elem_def Some)
    then show ?thesis
      using \<open>sl = Some s\<close> Some same[of st "[0..<len s]"]
      by (simp add: updateEnvVarReferences_def slice_elems_def A_def)
  qed
qed

lemma fold_updateEnvVarReferences:
  "fold (\<lambda>x. updateEnvVarReferences dm sm gm (f x)) xs st
     = fold (updateEnvVar dm sm gm) (concat (map (\<lambda>x. slice_elems (EnvVar_arrays st) (f x)) xs)) st"
proof (induction xs arbitrary: st)
  case Nil
  then show ?case by simp
next
  case (Cons x xs)
  have a: "EnvVar_arrays (updateEnvVarReferences dm sm gm (f x) st) = EnvVar_arrays st"
    by (simp add: updateEnvVarReferences_fold fold_updateEnvVar_fields)
  show ?case
    by (simp add: Cons.IH a) (simp add: updateEnvVarReferences_fold)
qed

lemma visited_prefixed:
  "concat (map (\<lambda>s. slice_elems A (Service.EnvVars s)) (Blueprint.Services (prefixed_names p c)))
     = concat (map (\<lambda>s. slice_elems A (Service.EnvVars s)) (Blueprint.Services c))"
  "concat (map (\<lambda>g. slice_elems A (EnvVarGroup.EnvVars g)) (Blueprint.EnvVarGroups (prefixed_names p c)))
     = concat (map (\<lambda>g. slice_elems A (EnvVarGroup.EnvVars g)) (Blueprint.EnvVarGroups c))"
  by (simp_all add: prefixed_names_def comp_def)

text \<open>
  PrefixBlueprint returns. The result is the copy with every name prefixed, the EnvVar
  arrays are as before, and every reference cell has been rewritten once for each visited
  EnvVar that holds it.
\<close>

lemma PrefixBlueprint_references:
  assumes "p \<noteq> []"
  shows "\<exists>st'. PrefixBlueprint st (Some d) p
            = Some (st', prefixed_names p (snd (CopyBlueprint st (Some d))))
     \<and> EnvVar_arrays st' = EnvVar_arrays st
     \<and> (\<forall>a. deref (FromDatabase_cells st') a =
           map_option (rename_FromDatabase (databaseNameMap p d)
               ^^ count_list (map EnvVar.FromDatabase (visited_EnvVars st d)) (Some a))
             (deref (FromDatabase_cells st) a))
     \<and> (\<forall>a. deref (FromService_cells st') a =
           map_option (rename_FromService (serviceNameMap p d)
               ^^ count_list (map EnvVar.FromService (visited_EnvVars st d)) (Some a))
             (deref (FromService_cells st) a))
     \<and> (\<forall>a. deref (string_cells st') a =
           map_option (rename_FromGroup (envGroupNameMap p d)
               ^^ count_list (map EnvVar.FromGroup (visited_EnvVars st d)) (Some a))
             (deref (string_cells st) a))"
proof -
  obtain st1 c where c: "CopyBlueprint st (Some d) = (st1, c)"
    by (cases "CopyBlueprint st (Some d)")
  have cd: "Blueprint.Services c = Blueprint.Services d"
    "Blueprint.Databases c = Blueprint.Databases d"
    "Blueprint.EnvVarGroups c = Blueprint.EnvVarGroups d"
    using CopyBlueprint_collections[of st d] by (simp_all add: c)
  have st1: "EnvVar_arrays st1 = EnvVar_arrays st" "FromDatabase_cells st1 = FromDatabase_cells st"
    "FromService_cells st1 = FromService_cells st" "string_cells st1 = string_cells st"
    using CopyBlueprint_store(1,3,4,5)[of st "Some d"] by (simp_all add: c)
  have maps: "databaseNameMap p c = databaseNameMap p d" "serviceNameMap p c = serviceNameMap p d"
    "envGroupNameMap p c = envGroupNameMap p d"
    by (simp_all add: databaseNameMap_def serviceNameMap_def envGroupNameMap_def cd)
  let ?r = "prefixed_names p c"
  let ?u = "updateEnvVar (databaseNameMap p d) (serviceNameMap p d) (envGroupNameMap p d)"
  define S where "S = fold ?u (visited_EnvVars st d) st1"
  have S: "fold (\<lambda>group. updateEnvVarReferences
                   (databaseNameMap p c) (serviceNameMap p c) (envGroupNameMap p c)
                   (EnvVarGroup.EnvVars group))
             (Blueprint.EnvVarGroups ?r)
             (fold (\<lambda>service. updateEnvVarReferences
                      (databaseNameMap p c) (serviceNameMap p c) (envGroupNameMap p c)
                      (Service.EnvVars service))
                (Blueprint.Services ?r) st1) = S"
    unfolding maps fold_updateEnvVarReferences fold_updateEnvVar_fields visited_prefixed
    by (simp add: S_def visited_EnvVars_def st1 cd)
  have dbs: "\<And>db. db \<in> set (Blueprint.Databases ?r) \<Longrightarrow> length p \<le> length (Database.Name db)"
    by (auto simp: prefixed_names_def)
  obtain st' where st': "fold_option (updateReadReplicas p) (Blueprint.Databases ?r) S = Some st'"
    using fold_option_total[of "Blueprint.Databases ?r" "updateReadReplicas p" S]
      updateReadReplicas_total dbs by blast
  have eq: "PrefixBlueprint st (Some d) p = Some (st', ?r)"
    using PrefixBlueprint_unfold[OF assms c] by (simp add: S st')
  have same: "same_references S st'"
    using st' by (rule updateReadReplicas_loop_references)
  have 1: "EnvVar_arrays st' = EnvVar_arrays st"
    using same by (simp add: same_references_def S_def fold_updateEnvVar_fields st1)
  have 2: "deref (FromDatabase_cells st') a =
           map_option (rename_FromDatabase (databaseNameMap p d)
               ^^ count_list (map EnvVar.FromDatabase (visited_EnvVars st d)) (Some a))
             (deref (FromDatabase_cells st) a)" for a
    using same by (simp add: same_references_def S_def fold_updateEnvVar_FromDatabase st1)
  have 3: "deref (FromService_cells st') a =
           map_option (rename_FromService (serviceNameMap p d)
               ^^ count_list (map EnvVar.FromService (visited_EnvVars st d)) (Some a))
             (deref (FromService_cells st) a)" for a
    using same by (simp add: same_references_def S_def fold_updateEnvVar_FromService st1)
  have 4: "deref (string_cells st') a =
           map_option (rename_FromGroup (envGroupNameMap p d)
               ^^ count_list (map EnvVar.FromGroup (visited_EnvVars st d)) (Some a))
             (deref (string_cells st) a)" for a
    using same by (simp add: same_references_def S_def fold_updateEnvVar_FromGroup st1)
  from eq 1 2 3 4 show ?thesis
    by (simp add: c)
qed

lemma PrefixBlueprint_result:
  assumes "p \<noteq> []"
  shows "\<exists>st'. PrefixBlueprint st (Some d) p
           = Some (st', prefixed_names p (snd (CopyBlueprint st (Some d))))"
  using PrefixBlueprint_references[OF assms, of st d] by blast

subsection \<open>Names\<close>

text \<open>
  C5. For a non-empty prefix \<open>p\<close> and a document with no empty name, PrefixBlueprint
  returns, and the service, database and env-group names of the result are \<open>p\<close>
  followed by the original names, entry by entry. The three renaming passes commute, so the
  result does not depend on the order in which the three kinds are processed.
\<close>

theorem PrefixBlueprint_names:
  assumes "p \<noteq> []"
    and "[] \<notin> set (service_names d)" and "[] \<notin> set (database_names d)"
    and "[] \<notin> set (group_names d)"
  shows "\<exists>st' r. PrefixBlueprint st (Some d) p = Some (st', r)
     \<and> service_names r = map ((@) p) (service_names d)
     \<and> database_names r = map ((@) p) (database_names d)
     \<and> group_names r = map ((@) p) (group_names d)
     \<and> rename_databases dm (rename_services sm c) = rename_services sm (rename_databases dm c)
     \<and> rename_groups gm (rename_services sm c) = rename_services sm (rename_groups gm c)
     \<and> rename_groups gm (rename_databases dm c) = rename_databases dm (rename_groups gm c)"
proof -
  from PrefixBlueprint_result[OF assms(1), of st d] obtain st' where
    r: "PrefixBlueprint st (Some d) p = Some (st', prefixed_names p (snd (CopyBlueprint st (Some d))))"
    by blast
  let ?r = "prefixed_names p (snd (CopyBlueprint st (Some d)))"
  have "service_names ?r = map ((@) p) (service_names d)"
    "database_names ?r = map ((@) p) (database_names d)"
    "group_names ?r = map ((@) p) (group_names d)"
    by (simp_all add: service_names_def database_names_def group_names_def prefixed_names_def
        CopyBlueprint_collections comp_def)
  moreover have "rename_databases dm (rename_services sm c) = rename_services sm (rename_databases dm c)"
    "rename_groups gm (rename_services sm c) = rename_services sm (rename_groups gm c)"
    "rename_groups gm (rename_databases dm c) = rename_databases dm (rename_groups gm c)"
    by (simp_all add: rename_services_def rename_databases_def rename_groups_def)
  ultimately show ?thesis using r by blast
qed

theorem PrefixBlueprint_names_witness:
  "''prod-'' \<noteq> [] \<and> [] \<notin> set (service_names example_base)
   \<and> [] \<notin> set (database_names example_base) \<and> [] \<notin> set (group_names example_base)
   \<and> (\<exists>st' r. PrefixBlueprint example_store (Some example_base) ''prod-'' = Some (st', r)
        \<and> service_names r = [''prod-api''] \<and> database_names r = [''prod-main-db'']
        \<and> group_names r = [])"
proof -
  have h: "''prod-'' \<noteq> []" "[] \<notin> set (service_names example_base)"
    "[] \<notin> set (database_names example_base)" "[] \<notin> set (group_names example_base)"
    by (simp_all add: service_names_def database_names_def group_names_def example_base_def)
  have n: "map ((@) ''prod-'') (service_names example_base) = [''prod-api'']"
    "map ((@) ''prod-'') (database_names example_base) = [''prod-main-db'']"
    "map ((@) ''prod-'') (group_names example_base) = []"
    by (simp_all add: service_names_def database_names_def group_names_def example_base_def)
  from PrefixBlueprint_names[OF h, of example_store] show ?thesis
    unfolding n using h by blast
qed

text \<open>
  C10. For a non-empty prefix \<open>p\<close>, PrefixBlueprint returns, and every service, database
  or env-group whose name is the empty string is named exactly \<open>p\<close> in the result: the
  empty name is a key of the kind's old-name to new-name map, mapped to \<open>p + ""\<close>.
\<close>

theorem PrefixBlueprint_empty_name:
  assumes "p \<noteq> []"
  shows "\<exists>st' r. PrefixBlueprint st (Some d) p = Some (st', r)
     \<and> length (Blueprint.Services r) = length (Blueprint.Services d)
     \<and> length (Blueprint.Databases r) = length (Blueprint.Databases d)
     \<and> length (Blueprint.EnvVarGroups r) = length (Blueprint.EnvVarGroups d)
     \<and> (\<forall>i < length (Blueprint.Services d).
          Service.Name (Blueprint.Services d ! i) = [] \<longrightarrow>
          Service.Name (Blueprint.Services r ! i) = p
          \<and> name_map p (fold (\<lambda>s. mark (Service.Name s)) (Blueprint.Services d) Map.empty) []
              = Some (p @ []))
     \<and> (\<forall>i < length (Blueprint.Databases d).
          Database.Name (Blueprint.Databases d ! i) = [] \<longrightarrow>
          Database.Name (Blueprint.Databases r ! i) = p
          \<and> name_map p (fold (\<lambda>db. mark (Database.Name db)) (Blueprint.Databases d) Map.empty) []
              = Some (p @ []))
     \<and> (\<forall>i < length (Blueprint.EnvVarGroups d).
          EnvVarGroup.Name (Blueprint.EnvVarGroups d ! i) = [] \<longrightarrow>
          EnvVarGroup.Name (Blueprint.EnvVarGroups r ! i) = p
          \<and> name_map p (fold (\<lambda>g. mark (EnvVarGroup.Name g)) (Blueprint.EnvVarGroups d) Map.empty) []
              = Some (p @ []))"
proof -
  from PrefixBlueprint_result[OF assms, of st d] obtain st' where
    r: "PrefixBlueprint st (Some d) p = Some (st', prefixed_names p (snd (CopyBlueprint st (Some d))))"
    by blast
  let ?r = "prefixed_names p (snd (CopyBlueprint st (Some d)))"
  have len: "length (Blueprint.Services ?r) = length (Blueprint.Services d)"
    "length (Blueprint.Databases ?r) = length (Blueprint.Databases d)"
    "length (Blueprint.EnvVarGroups ?r) = length (Blueprint.EnvVarGroups d)"
    by (simp_all add: prefixed_names_def CopyBlueprint_collections)
  have s: "\<forall>i < length (Blueprint.Services d).
          Service.Name (Blueprint.Services d ! i) = [] \<longrightarrow>
          Service.Name (Blueprint.Services ?r ! i) = p
          \<and> name_map p (fold (\<lambda>s. mark (Service.Name s)) (Blueprint.Services d) Map.empty) []
              = Some (p @ [])"
    apply (simp add: prefixed_names_def CopyBlueprint_collections name_map_defined)
    by (metis imageI nth_mem)
  have db: "\<forall>i < length (Blueprint.Databases d).
          Database.Name (Blueprint.Databases d ! i) = [] \<longrightarrow>
          Database.Name (Blueprint.Databases ?r ! i) = p
          \<and> name_map p (fold (\<lambda>db. mark (Database.Name db)) (Blueprint.Databases d) Map.empty) []
              = Some (p @ [])"
    apply (simp add: prefixed_names_def CopyBlueprint_collections name_map_defined)
    by (metis imageI nth_mem)
  have g: "\<forall>i < length (Blueprint.EnvVarGroups d).
          EnvVarGroup.Name (Blueprint.EnvVarGroups d ! i) = [] \<longrightarrow>
          EnvVarGroup.Name (Blueprint.EnvVarGroups ?r ! i) = p
          \<and> name_map p (fold (\<lambda>g. mark (EnvVarGroup.Name g)) (Blueprint.EnvVarGroups d) Map.empty) []
              = Some (p @ [])"
    apply (simp add: prefixed_names_def CopyBlueprint_collections name_map_defined)
    by (metis imageI nth_mem)
  from r len s db g show ?thesis by blast
qed

theorem PrefixBlueprint_empty_name_witness:
  "''p-'' \<noteq> [] \<and> 0 < length (Blueprint.Services unnamed_doc)
   \<and> Service.Name (Blueprint.Services unnamed_doc ! 0) = []
   \<and> Database.Name (Blueprint.Databases unnamed_doc ! 0) = []
   \<and> EnvVarGroup.Name (Blueprint.EnvVarGroups unnamed_doc ! 0) = []
   \<and> (\<exists>st' r. PrefixBlueprint empty_store (Some unnamed_doc) ''p-'' = Some (st', r)
        \<and> Service.Name (Blueprint.Services r ! 0) = ''p-''
        \<and> Database.Name (Blueprint.Databases r ! 0) = ''p-''
        \<and> EnvVarGroup.Name (Blueprint.EnvVarGroups r ! 0) = ''p-'')"
proof -
  have p: "''p-'' \<noteq> []" by simp
  have h: "0 < length (Blueprint.Services unnamed_doc)"
    "0 < length (Blueprint.Databases unnamed_doc)"
    "0 < length (Blueprint.EnvVarGroups unnamed_doc)"
    "Service.Name (Blueprint.Services unnamed_doc ! 0) = []"
    "Database.Name (Blueprint.Databases unnamed_doc ! 0) = []"
    "EnvVarGroup.Name (Blueprint.EnvVarGroups unnamed_doc ! 0) = []"
    by (simp_all add: unnamed_doc_def)
  from PrefixBlueprint_empty_name[OF p, of empty_store unnamed_doc] h p show ?thesis
    by blast
qed

subsection \<open>The input document and the references after the call\<close>

text \<open>
  C1. The claim is that PrefixBlueprint and MergeBlueprints leave their arguments
  unchanged, nested EnvVar references and read-replica names included. PrefixBlueprint
  works on the copy made by CopyBlueprint, which shares the nested arrays and reference
  cells with the input, and writes the new names through them. On the example the input's
  own reference to main-db reads prod-main-db after the call, so the input no longer
  equals its snapshot; likewise the input's replica p-x reads p-dbx.
\<close>

theorem PrefixBlueprint_changes_original:
  "service_database_refs (snapshot example_store example_base)
     = [ [Some ''main-db'', Some ''external-db''] ]
   \<and> map_option service_database_refs (original_after_prefix example_store example_base ''prod-'')
     = Some [ [Some ''prod-main-db'', Some ''external-db''] ]
   \<and> original_after_prefix example_store example_base ''prod-''
     \<noteq> Some (snapshot example_store example_base)
   \<and> replica_names (snapshot replica_store replica_doc) = [ [''db-replica'', ''p-x''] ]
   \<and> map_option replica_names (original_after_prefix replica_store replica_doc ''p-'')
     = Some [ [''db-replica'', ''p-dbx''] ]"
  by code_simp

text \<open>
  C2. The claim is that a replica name beginning with the database's old name gets the new
  name in place of that beginning, and that every other replica name is unchanged. The
  loop compares with \<open>db.Name[:len(db.Name)-len(prefix)]\<close>, the first characters of the new
  name, not with the old name. For the database db and the prefix p- that string is p-:
  the replica db-replica keeps its name and the replica p-x becomes p-dbx. In the example
  document main-db-replica keeps its name under the prefix prod-.
\<close>

theorem PrefixBlueprint_replicas:
  "replica_names (snapshot replica_store replica_doc) = [ [''db-replica'', ''p-x''] ]
   \<and> map_option (\<lambda>s. map Database_snapshot.Name (Blueprint_snapshot.Databases s))
        (prefixed_snapshot replica_store replica_doc ''p-'') = Some [''p-db'']
   \<and> map_option replica_names (prefixed_snapshot replica_store replica_doc ''p-'')
     = Some [ [''db-replica'', ''p-dbx''] ]
   \<and> map_option replica_names (prefixed_snapshot example_store example_base ''prod-'')
     = Some [ [''main-db-replica''] ]"
  by code_simp

text \<open>
  C4. The claim is that every reference to a name the document defines is rewritten to
  the prefixed name. The references are rewritten in place, through the pointers of the
  input, so a reference cell held by two EnvVars is rewritten at each of them. In the
  example both services refer to db through one cell and the document also defines
  staging-db: under the prefix staging- both references read staging-staging-db, the new
  name of the other database, instead of staging-db.
\<close>

theorem PrefixBlueprint_shared_reference:
  "service_database_refs (snapshot shared_store shared_doc) = [ [Some ''db''], [Some ''db''] ]
   \<and> database_names shared_doc = [''db'', ''staging-db'']
   \<and> map_option (\<lambda>s. map Database_snapshot.Name (Blueprint_snapshot.Databases s))
        (prefixed_snapshot shared_store shared_doc ''staging-'')
     = Some [''staging-db'', ''staging-staging-db'']
   \<and> map_option service_database_refs (prefixed_snapshot shared_store shared_doc ''staging-'')
     = Some [ [Some ''staging-staging-db''], [Some ''staging-staging-db''] ]"
  by code_simp

subsection \<open>References to defined and to undefined names\<close>

lemma rename_by_map:
  "rename_FromDatabase (databaseNameMap p d) =
     (\<lambda>fd. if FromDatabase.Name fd \<in> set (database_names d)
            then fd\<lparr>FromDatabase.Name := p @ FromDatabase.Name fd\<rparr> else fd)"
  "rename_FromService (serviceNameMap p d) =
     (\<lambda>fs. if FromService.Name fs \<in> set (service_names d)
            then fs\<lparr>FromService.Name := p @ FromService.Name fs\<rparr> else fs)"
  "rename_FromGroup (envGroupNameMap p d) = (\<lambda>g. if g \<in> set (group_names d) then p @ g else g)"
  by (auto simp: rename_FromDatabase_def rename_FromService_def rename_FromGroup_def
      databaseNameMap_def serviceNameMap_def envGroupNameMap_def name_map_defined
      database_names_def service_names_def group_names_def)

lemma funpow_fixed: "f x = x \<Longrightarrow> (f ^^ n) x = x"
  by (induction n) simp_all

lemma count_map_filter:
  "count_list (map f xs) (Some a) = count_list (List.map_filter f xs) a"
  by (induction xs) (auto split: option.splits)

lemma count_distinct: "distinct xs \<Longrightarrow> count_list xs a = (if a \<in> set xs then 1 else 0)"
  by (induction xs) auto

lemma count_unshared:
  assumes "distinct (List.map_filter f xs)" and "x \<in> set xs" and "f x = Some a"
  shows "count_list (map f xs) (Some a) = 1"
proof -
  have "a \<in> set (List.map_filter f xs)"
    using assms(2,3) by (force simp: List.map_filter_def)
  then show ?thesis
    by (simp add: count_map_filter count_distinct[OF assms(1)])
qed

text \<open>References to names that the document does not define are never rewritten.\<close>

lemma PrefixBlueprint_external_references:
  assumes "p \<noteq> []"
  shows "\<exists>st' r. PrefixBlueprint st (Some d) p = Some (st', r)
     \<and> (\<forall>a fd. deref (FromDatabase_cells st) a = Some fd
            \<and> FromDatabase.Name fd \<notin> set (database_names d)
          \<longrightarrow> deref (FromDatabase_cells st') a = Some fd)
     \<and> (\<forall>a fs. deref (FromService_cells st) a = Some fs
            \<and> FromService.Name fs \<notin> set (service_names d)
          \<longrightarrow> deref (FromService_cells st') a = Some fs)
     \<and> (\<forall>a g. deref (string_cells st) a = Some g \<and> g \<notin> set (group_names d)
          \<longrightarrow> deref (string_cells st') a = Some g)"
proof -
  from PrefixBlueprint_references[OF assms, of st d] obtain st' where
    r: "PrefixBlueprint st (Some d) p
          = Some (st', prefixed_names p (snd (CopyBlueprint st (Some d))))"
    and db: "\<And>a. deref (FromDatabase_cells st') a =
           map_option (rename_FromDatabase (databaseNameMap p d)
               ^^ count_list (map EnvVar.FromDatabase (visited_EnvVars st d)) (Some a))
             (deref (FromDatabase_cells st) a)"
    and sv: "\<And>a. deref (FromService_cells st') a =
           map_option (rename_FromService (serviceNameMap p d)
               ^^ count_list (map EnvVar.FromService (visited_EnvVars st d)) (Some a))
             (deref (FromService_cells st) a)"
    and gr: "\<And>a. deref (string_cells st') a =
           map_option (rename_FromGroup (envGroupNameMap p d)
               ^^ count_list (map EnvVar.FromGroup (visited_EnvVars st d)) (Some a))
             (deref (string_cells st) a)"
    by blast
  have "deref (FromDatabase_cells st') a = Some fd"
    if "deref (FromDatabase_cells st) a = Some fd" "FromDatabase.Name fd \<notin> set (database_names d)"
    for a fd
    using that by (simp add: db funpow_fixed rename_by_map)
  moreover have "deref (FromService_cells st') a = Some fs"
    if "deref (FromService_cells st) a = Some fs" "FromService.Name fs \<notin> set (service_names d)"
    for a fs
    using that by (simp add: sv funpow_fixed rename_by_map)
  moreover have "deref (string_cells st') a = Some g"
    if "deref (string_cells st) a = Some g" "g \<notin> set (group_names d)"
    for a g
    using that by (simp add: gr funpow_fixed rename_by_map)
  ultimately show ?thesis using r by blast
qed

text \<open>When no reference cell is held by two of the EnvVars of the document, every EnvVar
  reads, after the call, with each reference to a defined name prefixed and every other
  reference as before.\<close>

lemma PrefixBlueprint_unshared_references:
  assumes "p \<noteq> []" and "unshared st d"
  shows "\<exists>st' r. PrefixBlueprint st (Some d) p = Some (st', r)
     \<and> visited_EnvVars st' r = visited_EnvVars st d
     \<and> (\<forall>e \<in> set (visited_EnvVars st d).
          snapshot_EnvVar st' e = prefix_references p d (snapshot_EnvVar st e))"
proof -
  from PrefixBlueprint_references[OF assms(1), of st d] obtain st' where
    r: "PrefixBlueprint st (Some d) p
          = Some (st', prefixed_names p (snd (CopyBlueprint st (Some d))))"
    and arr: "EnvVar_arrays st' = EnvVar_arrays st"
    and db: "\<And>a. deref (FromDatabase_cells st') a =
           map_option (rename_FromDatabase (databaseNameMap p d)
               ^^ count_list (map EnvVar.FromDatabase (visited_EnvVars st d)) (Some a))
             (deref (FromDatabase_cells st) a)"
    and sv: "\<And>a. deref (FromService_cells st') a =
           map_option (rename_FromService (serviceNameMap p d)
               ^^ count_list (map EnvVar.FromService (visited_EnvVars st d)) (Some a))
             (deref (FromService_cells st) a)"
    and gr: "\<And>a. deref (string_cells st') a =
           map_option (rename_FromGroup (envGroupNameMap p d)
               ^^ count_list (map EnvVar.FromGroup (visited_EnvVars st d)) (Some a))
             (deref (string_cells st) a)"
    by blast
  let ?r = "prefixed_names p (snd (CopyBlueprint st (Some d)))"
  have v: "visited_EnvVars st' ?r = visited_EnvVars st d"
    by (simp add: visited_EnvVars_def visited_prefixed arr CopyBlueprint_collections)
  have "snapshot_EnvVar st' e = prefix_references p d (snapshot_EnvVar st e)"
    if e: "e \<in> set (visited_EnvVars st d)" for e
  proof -
    have 1: "Option.bind (EnvVar.FromDatabase e) (deref (FromDatabase_cells st'))
        = map_option (rename_FromDatabase (databaseNameMap p d))
            (Option.bind (EnvVar.FromDatabase e) (deref (FromDatabase_cells st)))"
    proof (cases "EnvVar.FromDatabase e")
      case None
      then show ?thesis by simp
    next
      case (Some a)
      from assms(2) have "distinct (List.map_filter EnvVar.FromDatabase (visited_EnvVars st d))"
        by (simp add: unshared_def)
      from count_unshared[OF this e Some] Some show ?thesis
        by (simp add: db)
    qed
    have 2: "Option.bind (EnvVar.FromService e) (deref (FromService_cells st'))
        = map_option (rename_FromService (serviceNameMap p d))
            (Option.bind (EnvVar.FromService e) (deref (FromService_cells st)))"
    proof (cases "EnvVar.FromService e")
      case None
      then show ?thesis by simp
    next
      case (Some a)
      from assms(2) have "distinct (List.map_filter EnvVar.FromService (visited_EnvVars st d))"
        by (simp add: unshared_def)
      from count_unshared[OF this e Some] Some show ?thesis
        by (simp add: sv)
    qed
    have 3: "Option.bind (EnvVar.FromGroup e) (deref (string_cells st'))
        = map_option (rename_FromGroup (envGroupNameMap p d))
            (Option.bind (EnvVar.FromGroup e) (deref (string_cells st)))"
    proof (cases "EnvVar.FromGroup e")
      case None
      then show ?thesis by simp
    next
      case (Some a)
      from assms(2) have "distinct (List.map_filter EnvVar.FromGroup (visited_EnvVars st d))"
        by (simp add: unshared_def)
      from count_unshared[OF this e Some] Some show ?thesis
        by (simp add: gr)
    qed
    show ?thesis
      unfolding snapshot_EnvVar_def prefix_references_def 1 2 3 rename_by_map
      by simp
  qed
  with r v show ?thesis by blast
qed

section \<open>Properties of ValidateBlueprint\<close>

lemma check_duplicate_step:
  "check_duplicate what n (errs, m)
     = ((if lookup_bool m n then errs @ [what @ n] else errs), m(n \<mapsto> True))"
  by (simp add: check_duplicate_def)

lemma fold_check_duplicate:
  "fst (fold (\<lambda>x. check_duplicate what (f x)) xs (errs, m))
     = errs @ map ((@) what) (duplicate_names {n. lookup_bool m n} (map f xs))"
proof (induction xs arbitrary: errs m)
  case Nil
  then show ?case by simp
next
  case (Cons x xs)
  have seen: "{n. lookup_bool (m(f x \<mapsto> True)) n} = insert (f x) {n. lookup_bool m n}"
    by (auto simp: lookup_bool_def)
  have IH': "\<And>errs. fst (fold (\<lambda>x. check_duplicate what (f x)) xs (errs, m(f x \<mapsto> True)))
      = errs @ map ((@) what) (duplicate_names (insert (f x) {n. lookup_bool m n}) (map f xs))"
    using Cons.IH[of _ "m(f x \<mapsto> True)"] unfolding seen .
  show ?case
    by (simp add: check_duplicate_step IH')
qed

lemma count_duplicate_names:
  "count_list (duplicate_names seen ns) n
     = (if n \<in> seen then count_list ns n else count_list ns n - 1)"
  by (induction ns arbitrary: seen) auto

lemma count_list_map_append: "count_list (map ((@) what) xs) (what @ n) = count_list xs n"
  by (induction xs) auto

lemma fold_append_step:
  "(\<And>x errs. step x errs = errs @ g x) \<Longrightarrow> fold step xs errs = errs @ concat (map g xs)"
  by (induction xs arbitrary: errs) simp_all

lemma check_service_append: "check_service s errs = errs @ check_service s []"
  by (simp add: check_service_def Let_def)

lemma check_service_first: "e \<in> set (check_service s []) \<Longrightarrow> hd e = CHR ''s''"
  by (auto simp: check_service_def Let_def split: if_splits)

lemma count_list_concat_notin:
  "(\<And>xs. xs \<in> set xss \<Longrightarrow> e \<notin> set xs) \<Longrightarrow> count_list (concat xss) e = 0"
  by (simp add: count_list_0_iff)

lemma ValidateBlueprint_parts:
  "ValidateBlueprint (Some b) =
     map ((@) ''duplicate service name: '') (duplicate_names {} (service_names b))
   @ map ((@) ''duplicate database name: '') (duplicate_names {} (database_names b))
   @ map ((@) ''duplicate environment group name: '') (duplicate_names {} (group_names b))
   @ concat (map (\<lambda>s. check_service s []) (Blueprint.Services b))
   @ concat (map (\<lambda>db. if Database.Name db = [] then [''database missing name''] else [])
       (Blueprint.Databases b))
   @ concat (map (\<lambda>g. if EnvVarGroup.Name g = [] then [''environment group missing name''] else [])
       (Blueprint.EnvVarGroups b))"
proof -
  have none: "{n. lookup_bool Map.empty n} = {}"
    by (simp add: lookup_bool_def)
  have dup: "\<And>what f xs errs. fst (fold (\<lambda>x. check_duplicate what (f x)) xs (errs, Map.empty))
      = errs @ map ((@) what) (duplicate_names {} (map f xs))"
    using fold_check_duplicate[where m = Map.empty] unfolding none .
  have svc: "\<And>xs errs. fold check_service xs errs = errs @ concat (map (\<lambda>s. check_service s []) xs)"
    by (rule fold_append_step) (rule check_service_append)
  have db: "\<And>xs errs. fold (\<lambda>db errors.
      if Database.Name db = [] then errors @ [''database missing name''] else errors) xs errs
      = errs @ concat (map (\<lambda>db. if Database.Name db = [] then [''database missing name''] else []) xs)"
    by (rule fold_append_step) simp
  have grp: "\<And>xs errs. fold (\<lambda>group errors.
      if EnvVarGroup.Name group = [] then errors @ [''environment group missing name''] else errors) xs errs
      = errs @ concat (map (\<lambda>g. if EnvVarGroup.Name g = [] then [''environment group missing name''] else []) xs)"
    by (rule fold_append_step) simp
  show ?thesis
    unfolding ValidateBlueprint_def Let_def option.case dup svc db grp
      service_names_def database_names_def group_names_def
    by simp
qed

text \<open>
  C9. For a document with exactly two services named svc, the defect list of
  ValidateBlueprint has exactly one entry "duplicate service name: svc", whatever other
  defects it reports.
\<close>

theorem ValidateBlueprint_duplicate_service:
  assumes "count_list (service_names b) ''svc'' = 2"
  shows "count_list (ValidateBlueprint (Some b)) ''duplicate service name: svc'' = 1"
proof -
  let ?e = "''duplicate service name: svc''"
  have e: "?e = ''duplicate service name: '' @ ''svc''" by simp
  have s: "count_list (map ((@) ''duplicate service name: '') (duplicate_names {} (service_names b))) ?e = 1"
    unfolding e count_list_map_append count_duplicate_names using assms by simp
  have d: "count_list (map ((@) ''duplicate database name: '') ns) ?e = 0" for ns
    by (auto simp: count_list_0_iff)
  have g: "count_list (map ((@) ''duplicate environment group name: '') ns) ?e = 0" for ns
    by (auto simp: count_list_0_iff)
  have rs: "count_list (concat (map (\<lambda>s. check_service s []) xs)) ?e = 0" for xs
    by (rule count_list_concat_notin) (auto dest: check_service_first)
  have rd: "count_list (concat (map (\<lambda>db. if Database.Name db = [] then [''database missing name''] else []) xs)) ?e = 0"
    for xs :: "Database list"
    by (rule count_list_concat_notin) auto
  have rg: "count_list (concat (map (\<lambda>g. if EnvVarGroup.Name g = [] then [''environment group missing name''] else []) xs)) ?e = 0"
    for xs :: "EnvVarGroup list"
    by (rule count_list_concat_notin) auto
  show ?thesis
    unfolding ValidateBlueprint_parts count_list_append s d g rs rd rg by simp
qed

theorem ValidateBlueprint_duplicate_service_witness:
  "count_list (service_names duplicate_doc) ''svc'' = 2
   \<and> count_list (ValidateBlueprint (Some duplicate_doc)) ''duplicate service name: svc'' = 1
   \<and> length (ValidateBlueprint (Some duplicate_doc)) = 4"
proof -
  have h: "count_list (service_names duplicate_doc) ''svc'' = 2"
    by (simp add: service_names_def duplicate_doc_def)
  have l: "length (ValidateBlueprint (Some duplicate_doc)) = 4"
    by code_simp
  from ValidateBlueprint_duplicate_service[OF h] h l show ?thesis by simp
qed

end
